theory Spec2Isabelle
  imports Complex_Main "HOL-Library.Sublist"
begin

section \<open>JavaScript values as the SDK sees them\<close>

text \<open>
  An inbound text frame is handed to \<^verbatim>\<open>JSON.parse\<close>. The result is a JavaScript value; the
  handler then reads properties of it, tests them for truthiness and compares them with
  \<^verbatim>\<open>===\<close> against string, number and boolean literals. \<open>JUndefined\<close> is what reading a
  missing property gives. Numbers are exact rationals (JSON numbers that a double holds
  exactly); an object is the association list of its own properties after parsing, looked up
  with \<open>map_of\<close>.
\<close>

datatype jsval =
    JUndefined
  | JNull
  | JBool bool
  | JNum rat
  | JStr string
  | JArr "jsval list"
  | JObj "(string \<times> jsval) list"

datatype js_exn = TypeError | SyntaxError

text \<open>\<^verbatim>\<open>if (v)\<close>, \<^verbatim>\<open>!v\<close>, \<^verbatim>\<open>a || b\<close>, \<^verbatim>\<open>a && b\<close>: JavaScript truthiness.\<close>

fun truthy :: "jsval \<Rightarrow> bool" where
  "truthy JUndefined = False"
| "truthy JNull = False"
| "truthy (JBool b) = b"
| "truthy (JNum n) = (n \<noteq> 0)"
| "truthy (JStr s) = (s \<noteq> [])"
| "truthy (JArr xs) = True"
| "truthy (JObj kvs) = True"

definition js_or :: "jsval \<Rightarrow> jsval \<Rightarrow> jsval" where
  "js_or a b = (if truthy a then a else b)"

text \<open>
  Reading a property \<^verbatim>\<open>v.k\<close>. On \<^verbatim>\<open>null\<close> and \<^verbatim>\<open>undefined\<close> it throws a TypeError, which
  the callers below test with \<open>nullish\<close> before they read; on an object it is the own
  property or \<^verbatim>\<open>undefined\<close>; on a string, number, boolean or array none of the property
  names the SDK reads as data exists, so the result is \<^verbatim>\<open>undefined\<close>.
\<close>

fun nullish :: "jsval \<Rightarrow> bool" where
  "nullish JUndefined = True"
| "nullish JNull = True"
| "nullish v = False"

fun js_prop :: "jsval \<Rightarrow> string \<Rightarrow> jsval" where
  "js_prop (JObj kvs) k = (case map_of kvs k of Some v \<Rightarrow> v | None \<Rightarrow> JUndefined)"
| "js_prop v k = JUndefined"

text \<open>\<^verbatim>\<open>String.prototype.toLowerCase\<close> and \<^verbatim>\<open>String.prototype.includes\<close>, on ASCII text.\<close>

definition toLowerChar :: "char \<Rightarrow> char" where
  "toLowerChar ch =
     (let n = (of_char ch :: nat) in if 65 \<le> n \<and> n \<le> 90 then char_of (n + 32) else ch)"

definition toLowerCase :: "string \<Rightarrow> string" where
  "toLowerCase s = map toLowerChar s"

fun str_includes :: "string \<Rightarrow> string \<Rightarrow> bool" where
  "str_includes [] kw = (kw = [])"
| "str_includes (ch # cs) kw = (take (length kw) (ch # cs) = kw \<or> str_includes cs kw)"

section \<open>WebSocketClient (lib/websocket-client.js)\<close>

text \<open>
  The fields of the class that its methods read or write after construction. The remaining
  constructor fields (host, port, secure, targetLanguage, voiceId, useVad, saveToDashboard)
  only shape the configuration record sent on open. \<open>socket\<close> is \<^verbatim>\<open>null\<close> or a socket of the
  \<^verbatim>\<open>ws\<close> library, of which the client reads \<^verbatim>\<open>readyState\<close>. \<open>connectionTimer\<close> is \<^verbatim>\<open>null\<close> or
  the handle \<^verbatim>\<open>setTimeout\<close> returned (always truthy).
\<close>

datatype readyState = CONNECTING | OPEN | CLOSING | CLOSED

record ws_client =
  uuid :: string
  sourceLanguage :: jsval
  apiKey :: jsval
  socket :: "readyState option"
  isServerReady :: bool
  connectionTimer :: "nat option"

text \<open>The \<^verbatim>\<open>Error\<close> objects the client creates or passes on.\<close>

datatype ws_error =
    ServerMessage jsval  \<comment> \<open>\<^verbatim>\<open>new Error(data.message)\<close>, the WAIT branch\<close>
  | AuthenticationError  \<comment> \<open>\<^verbatim>\<open>Connection failed: Authentication error. Please check ...\<close>\<close>
  | ConnectionFailed jsval  \<comment> \<open>\<^verbatim>\<open>Connection failed: ${errorMessage}\<close>\<close>
  | Thrown js_exn  \<comment> \<open>an exception caught by the handler's \<^verbatim>\<open>catch\<close>\<close>
  | TimeoutWaiting  \<comment> \<open>\<^verbatim>\<open>Connection failed: Timeout waiting for server response ...\<close>\<close>
  | InvalidApiKey  \<comment> \<open>\<^verbatim>\<open>Connection failed: Invalid or missing API key ...\<close>\<close>
  | SocketError  \<comment> \<open>the error event of the socket\<close>

text \<open>The events of the emitter, by name, with their payload.\<close>

datatype ws_emit =
    EvBinaryData "nat list"
  | EvError ws_error
  | EvReady
  | EvLanguageDetected jsval
  | EvDisconnect
  | EvSegments "jsval list"
  | EvTranslatedSegments jsval
  | EvFinalizedSegment jsval
  | EvFinalizedTranslatedSegment jsval
  | EvFinalizedSegmentAudioURL jsval
  | EvTranscription jsval

text \<open>
  What a method does to the world outside the object, in order: events emitted, the legacy
  callbacks called, timers armed and cancelled, operations on the socket, and the settling of
  the promise \<^verbatim>\<open>connect()\<close> returned. Listeners and callbacks are taken to return normally,
  and an \<^verbatim>\<open>error\<close> listener to be registered (MaestraClient registers one).
\<close>

datatype effect =
    Emit ws_emit
  | CbOnError ws_error
  | CbOnReady
  | CbOnClose
  | CbOnLanguageDetected jsval
  | CbOnTranscription jsval
  | SetTimeout nat
  | ClearTimeout nat
  | SocketNew
  | SocketSendConfig
  | SocketSendAudio "rat list"
  | SocketClose
  | Resolve
  | Reject ws_error

definition error_effects :: "ws_error \<Rightarrow> effect list" where
  "error_effects e = [CbOnError e, Emit (EvError e)]"

subsection \<open>\<^verbatim>\<open>_isAuthenticationError\<close>\<close>

definition authKeywords :: "string list" where
  "authKeywords =
     [''unauthorized'', ''authentication'', ''invalid api key'', ''api key'',
      ''forbidden'', ''access denied'', ''invalid token'', ''invalid key'',
      ''authentication failed'', ''invalid credentials'', ''token expired'',
      ''key not found'', ''permission denied'']"

text \<open>
  \<^verbatim>\<open>errorMessage.toLowerCase()\<close> is a TypeError when the truthy \<open>errorMessage\<close> is not a
  string: a number, \<^verbatim>\<open>true\<close>, an array or an object has no such method.
\<close>

definition isAuthenticationError :: "jsval \<Rightarrow> jsval \<Rightarrow> js_exn + bool" where
  "isAuthenticationError errorMessage data =
     (if \<not> truthy errorMessage then Inr False
      else case errorMessage of
        JStr s \<Rightarrow>
          (let message = toLowerCase s;
               isAuthError = list_ex (\<lambda>keyword. str_includes message keyword) authKeywords
           in if js_prop data ''status_code'' = JNum 401 \<or> js_prop data ''status_code'' = JNum 403
              then Inr True
              else Inr isAuthError)
      | _ \<Rightarrow> Inl TypeError)"

subsection \<open>\<^verbatim>\<open>close\<close> and \<^verbatim>\<open>sendAudio\<close>\<close>

text \<open>
  \<^verbatim>\<open>socket.close()\<close> of the \<^verbatim>\<open>ws\<close> library starts the closing handshake: a connecting or open
  socket becomes CLOSING, a closing or closed one stays as it is.
\<close>

fun socket_close :: "readyState \<Rightarrow> readyState" where
  "socket_close CONNECTING = CLOSING"
| "socket_close OPEN = CLOSING"
| "socket_close CLOSING = CLOSING"
| "socket_close CLOSED = CLOSED"

definition clear_timer :: "ws_client \<Rightarrow> ws_client \<times> effect list" where
  "clear_timer c =
     (case connectionTimer c of
        Some t \<Rightarrow> (c\<lparr>connectionTimer := None\<rparr>, [ClearTimeout t])
      | None \<Rightarrow> (c, []))"

definition close :: "ws_client \<Rightarrow> ws_client \<times> effect list" where
  "close c =
     (let (c1, e1) = clear_timer c;
          (c2, e2) = (case socket c1 of
                        Some rs \<Rightarrow> (c1\<lparr>socket := Some (socket_close rs)\<rparr>, [SocketClose])
                      | None \<Rightarrow> (c1, []))
      in (c2\<lparr>isServerReady := False\<rparr>, e1 @ e2))"

definition sendAudio :: "ws_client \<Rightarrow> rat list \<Rightarrow> ws_client \<times> effect list" where
  "sendAudio c audioData =
     (if socket c \<noteq> None \<and> socket c = Some OPEN \<and> isServerReady c
      then (c, [SocketSendAudio audioData])
      else (c, []))"

subsection \<open>\<^verbatim>\<open>_handleMessage\<close>\<close>

text \<open>
  The payload of a message event: an \<^verbatim>\<open>ArrayBuffer\<close>, or text on which \<^verbatim>\<open>JSON.parse\<close> either
  throws a SyntaxError or returns a value.
\<close>

datatype message_event = BinaryData "nat list" | BadJson | Json jsval

text \<open>
  \<^verbatim>\<open>data.segments.filter(segment => segment.completed === false)\<close>: a TypeError when
  \<open>data.segments\<close> is truthy and not an array (it has no \<^verbatim>\<open>filter\<close>), or when an element is
  \<^verbatim>\<open>null\<close>.
\<close>

definition currentInterim :: "jsval \<Rightarrow> js_exn + jsval list" where
  "currentInterim segs =
     (case segs of
        JArr xs \<Rightarrow>
          if list_ex nullish xs then Inl TypeError
          else Inr (filter (\<lambda>segment. js_prop segment ''completed'' = JBool False) xs)
      | _ \<Rightarrow> Inl TypeError)"

text \<open>The part of the handler after the disconnect test: the events of a regular message.\<close>

definition regular_effects :: "jsval \<Rightarrow> js_exn + effect list" where
  "regular_effects data =
     (case (if truthy (js_prop data ''segments'')
            then (case currentInterim (js_prop data ''segments'') of
                    Inl e \<Rightarrow> Inl e
                  | Inr cur \<Rightarrow> Inr (if length cur > 0 then [Emit (EvSegments cur)] else []))
            else Inr []) of
        Inl e \<Rightarrow> Inl e
      | Inr segs \<Rightarrow>
          Inr (segs
            @ (if truthy (js_prop data ''translated_segments'')
               then [Emit (EvTranslatedSegments (js_prop data ''translated_segments''))] else [])
            @ (if truthy (js_prop data ''segment'')
               then [Emit (EvFinalizedSegment (js_prop data ''segment''))] else [])
            @ (if truthy (js_prop data ''translated_segment'')
               then [Emit (EvFinalizedTranslatedSegment (js_prop data ''translated_segment''))] else [])
            @ (if js_prop data ''type'' = JStr ''audio''
               then [Emit (EvFinalizedSegmentAudioURL (js_prop data ''audio_url''))] else [])
            @ [CbOnTranscription data, Emit (EvTranscription data)]))"

definition handleJson :: "ws_client \<Rightarrow> jsval \<Rightarrow> ws_client \<times> effect list" where
  "handleJson c data =
     (if nullish data then (c, error_effects (Thrown TypeError))
      else if truthy (js_prop data ''uid'') \<and> js_prop data ''uid'' \<noteq> JStr (uuid c) then (c, [])
      else if js_prop data ''status'' = JStr ''WAIT''
        then (c, error_effects (ServerMessage (js_prop data ''message'')))
      else if js_prop data ''status'' = JStr ''ERROR'' \<or> truthy (js_prop data ''error'')
        then (let errorMessage =
                    js_or (js_prop data ''message'') (js_or (js_prop data ''error'') (JStr ''Unknown error''));
                  (c1, e1) = clear_timer c
              in case isAuthenticationError errorMessage data of
                   Inl exn \<Rightarrow> (c1, e1 @ error_effects (Thrown exn))
                 | Inr True \<Rightarrow> (c1, e1 @ error_effects AuthenticationError)
                 | Inr False \<Rightarrow> (c1, e1 @ error_effects (ConnectionFailed errorMessage)))
      else if \<not> isServerReady c
        then (let (c1, e1) = clear_timer (c\<lparr>isServerReady := True\<rparr>)
              in (c1, e1 @ [CbOnReady, Emit EvReady]))
      else if sourceLanguage c = JNull \<and> truthy (js_prop data ''language'')
        then (c\<lparr>sourceLanguage := js_prop data ''language''\<rparr>,
              [CbOnLanguageDetected (js_prop data ''language''),
               Emit (EvLanguageDetected (js_prop data ''language''))])
      else if js_prop data ''message'' = JStr ''DISCONNECT''
        then (let (c1, e1) = close c in (c1, [CbOnClose, Emit EvDisconnect] @ e1))
      else case regular_effects data of
             Inl exn \<Rightarrow> (c, error_effects (Thrown exn))
           | Inr es \<Rightarrow> (c, es))"

definition handleMessage :: "ws_client \<Rightarrow> message_event \<Rightarrow> ws_client \<times> effect list" where
  "handleMessage c ev =
     (case ev of
        BinaryData bytes \<Rightarrow> (c, [Emit (EvBinaryData bytes)])
      | BadJson \<Rightarrow> (c, error_effects (Thrown SyntaxError))
      | Json data \<Rightarrow> handleJson c data)"

subsection \<open>\<^verbatim>\<open>connect\<close> and the handlers it installs\<close>

text \<open>
  \<^verbatim>\<open>_validateApiKey\<close>: the key is truthy, a string, and not empty after \<^verbatim>\<open>trim()\<close> (here over
  the ASCII white space characters).
\<close>

definition js_space :: "char \<Rightarrow> bool" where
  "js_space ch = (ch \<in> set [CHR '' '', CHR 0x09, CHR 0x0A, CHR 0x0B, CHR 0x0C, CHR 0x0D])"

definition validateApiKey :: "ws_client \<Rightarrow> bool" where
  "validateApiKey c =
     (if \<not> truthy (apiKey c) then False
      else case apiKey c of
        JStr s \<Rightarrow> \<not> (length (filter (\<lambda>ch. \<not> js_space ch) s) = 0)
      | _ \<Rightarrow> False)"

text \<open>
  \<^verbatim>\<open>connect()\<close> up to the installation of the handlers. The socket it creates is CONNECTING;
  the host and port are taken to form a URL the constructor of the socket accepts.
\<close>

definition connect :: "ws_client \<Rightarrow> ws_client \<times> effect list" where
  "connect c =
     (if \<not> validateApiKey c
      then (c, error_effects InvalidApiKey @ [Reject InvalidApiKey])
      else (c\<lparr>socket := Some CONNECTING\<rparr>, [SocketNew]))"

text \<open>
  \<^verbatim>\<open>socket.onopen\<close>: the configuration record is sent, the timer is armed and the promise is
  resolved. \<open>t\<close> is the handle \<^verbatim>\<open>setTimeout\<close> returns.
\<close>

definition onopen :: "ws_client \<Rightarrow> nat \<Rightarrow> ws_client \<times> effect list" where
  "onopen c t = (c\<lparr>connectionTimer := Some t\<rparr>, [SocketSendConfig, SetTimeout t, Resolve])"

text \<open>The function given to \<^verbatim>\<open>setTimeout\<close>.\<close>

definition onTimeout :: "ws_client \<Rightarrow> ws_client \<times> effect list" where
  "onTimeout c =
     (if \<not> isServerReady c
      then (let (c1, e1) = close c
            in (c1, error_effects TimeoutWaiting @ e1 @ [Reject TimeoutWaiting]))
      else (c, []))"

definition onclose :: "ws_client \<Rightarrow> ws_client \<times> effect list" where
  "onclose c = (c, [CbOnClose])"

definition onerror :: "ws_client \<Rightarrow> ws_client \<times> effect list" where
  "onerror c = (c, [CbOnError SocketError, Reject SocketError])"

subsection \<open>The client in its runtime\<close>

text \<open>
  The runtime holds the timers that are armed and have neither fired nor been cancelled, and
  delivers the events of the socket. A timer fires only while it is pending, the socket opens
  only from CONNECTING, and delivers messages only once it is open. One socket is modelled at
  a time: the one \<open>socket\<close> refers to.
\<close>

record world =
  client :: ws_client
  pending :: "nat set"

datatype event =
    CallConnect
  | SocketOpened nat
  | SocketMessage message_event
  | SocketFailed
  | SocketClosed
  | TimerFired nat
  | CallClose
  | CallSendAudio "rat list"

fun timer_effect :: "nat set \<Rightarrow> effect \<Rightarrow> nat set" where
  "timer_effect P (SetTimeout t) = insert t P"
| "timer_effect P (ClearTimeout t) = P - {t}"
| "timer_effect P e = P"

definition run_effects :: "world \<Rightarrow> ws_client \<times> effect list \<Rightarrow> world \<times> effect list" where
  "run_effects w r = (\<lparr>client = fst r, pending = foldl timer_effect (pending w) (snd r)\<rparr>, snd r)"

fun step :: "world \<Rightarrow> event \<Rightarrow> (world \<times> effect list) option" where
  "step w CallConnect = Some (run_effects w (connect (client w)))"
| "step w (SocketOpened t) =
     (if socket (client w) = Some CONNECTING \<and> t \<notin> pending w
      then Some (run_effects w (onopen ((client w)\<lparr>socket := Some OPEN\<rparr>) t))
      else None)"
| "step w (SocketMessage m) =
     (if socket (client w) = Some OPEN \<or> socket (client w) = Some CLOSING
      then Some (run_effects w (handleMessage (client w) m))
      else None)"
| "step w SocketFailed =
     (if socket (client w) \<noteq> None then Some (run_effects w (onerror (client w))) else None)"
| "step w SocketClosed =
     (if socket (client w) \<noteq> None
      then Some (run_effects w (onclose ((client w)\<lparr>socket := Some CLOSED\<rparr>)))
      else None)"
| "step w (TimerFired t) =
     (if t \<in> pending w
      then Some (run_effects (w\<lparr>pending := pending w - {t}\<rparr>) (onTimeout (client w)))
      else None)"
| "step w CallClose = Some (run_effects w (close (client w)))"
| "step w (CallSendAudio a) = Some (run_effects w (sendAudio (client w) a))"

text \<open>A sequence of events, with the effects of each.\<close>

fun run :: "world \<Rightarrow> event list \<Rightarrow> (world \<times> effect list list) option" where
  "run w [] = Some (w, [])"
| "run w (e # es) =
     (case step w e of
        None \<Rightarrow> None
      | Some (w1, effs) \<Rightarrow>
          (case run w1 es of
             None \<Rightarrow> None
           | Some (w2, tr) \<Rightarrow> Some (w2, effs # tr)))"

section \<open>Audio processors (lib/audio-processors)\<close>

text \<open>
  What \<^verbatim>\<open>onAudioCallback\<close> of a processor refers to: the function of its constructor options
  (or the empty default), or the closure \<^verbatim>\<open>MaestraClient.transcribe\<close> installs, which passes
  the block to the client's socket.
\<close>

datatype audio_callback = FromOptions | ToClient

text \<open>
  \<^verbatim>\<open>FfmpegProcessor\<close>, the base of the file, HLS, RTMPS, RTSP and SRT processors, which only
  differ in the input options they give FFmpeg. \<open>fp_ffmpegProcess\<close>: the field is not
  \<^verbatim>\<open>null\<close>.
\<close>

record ffmpeg_processor =
  fp_ffmpegProcess :: bool
  fp_isProcessing :: bool
  fp_onAudioCallback :: audio_callback

record microphone_processor =
  mp_microphone :: bool
  mp_micStream :: bool
  mp_resampler :: bool
  mp_isProcessing :: bool
  mp_onAudioCallback :: audio_callback

record stream_input_processor =
  sp_audioStream :: bool
  sp_isProcessing :: bool
  sp_onAudioCallback :: audio_callback

datatype processor =
    Ffmpeg ffmpeg_processor
  | Microphone microphone_processor
  | StreamInput stream_input_processor

datatype sdk_error =
    FromSocket ws_error
  | AlreadyTranscribing
  | NotConnectedOrNotReady
  | FromProcessor js_exn

datatype client_emit =
    ClReady
  | ClError sdk_error
  | ClDisconnect
  | LanguageDetected jsval
  | InterimTranscription "jsval list"
  | InterimTranslation jsval
  | FinalizedTranscription jsval
  | FinalizedTranslation jsval
  | FinalizedSegmentAudioUrl jsval
  | TranscriptionStarted
  | TranscriptionStopped

datatype sdk_effect =
    ClientEmit client_emit
  | PlayAudioUrl jsval
  | Ws effect
  | FfmpegKill
  | MicStopRecording
  | ResamplerDestroy
  | StreamEnd
  | CallOnAudio audio_callback "rat list"
  | OnErrorCallback sdk_error

fun callback_of :: "processor \<Rightarrow> audio_callback" where
  "callback_of (Ffmpeg p) = fp_onAudioCallback p"
| "callback_of (Microphone p) = mp_onAudioCallback p"
| "callback_of (StreamInput p) = sp_onAudioCallback p"

fun set_callback :: "audio_callback \<Rightarrow> processor \<Rightarrow> processor" where
  "set_callback cb (Ffmpeg p) = Ffmpeg (p\<lparr>fp_onAudioCallback := cb\<rparr>)"
| "set_callback cb (Microphone p) = Microphone (p\<lparr>mp_onAudioCallback := cb\<rparr>)"
| "set_callback cb (StreamInput p) = StreamInput (p\<lparr>sp_onAudioCallback := cb\<rparr>)"

text \<open>
  \<^verbatim>\<open>start()\<close>, where the device, the process or the stream is acquired without an error.
  An FFmpeg and a stream-input processor run the whole of it inside the executor of the
  promise they return, that is, during the call. \<^verbatim>\<open>MicrophoneProcessor.start\<close> is an
  \<^verbatim>\<open>async\<close> function: after the test of \<open>isProcessing\<close> it awaits the creation of the
  resampler, and the caller goes on (\<^verbatim>\<open>transcribe\<close> does not await it). The second component
  tells that the call is suspended at the \<^verbatim>\<open>await\<close>; \<open>start_resumed\<close> is the rest of the
  body, which runs in a later turn of the event loop on the processor as it is then.
\<close>

fun processor_start :: "processor \<Rightarrow> processor \<times> bool" where
  "processor_start (Ffmpeg p) =
     (if fp_isProcessing p then (Ffmpeg p, False)
      else (Ffmpeg (p\<lparr>fp_isProcessing := True, fp_ffmpegProcess := True\<rparr>), False))"
| "processor_start (Microphone p) = (Microphone p, \<not> mp_isProcessing p)"
| "processor_start (StreamInput p) =
     (if sp_isProcessing p then (StreamInput p, False)
      else (StreamInput (p\<lparr>sp_isProcessing := True, sp_audioStream := True\<rparr>), False))"

fun start_resumed :: "processor \<Rightarrow> processor" where
  "start_resumed (Microphone p) =
     Microphone (p\<lparr>mp_resampler := True, mp_isProcessing := True,
                   mp_microphone := True, mp_micStream := True\<rparr>)"
| "start_resumed p = p"

text \<open>\<^verbatim>\<open>stop()\<close> of the three classes.\<close>

fun processor_stop :: "processor \<Rightarrow> processor \<times> sdk_effect list" where
  "processor_stop (Ffmpeg p) =
     (let (p1, e1) = (if fp_ffmpegProcess p
                      then (p\<lparr>fp_ffmpegProcess := False\<rparr>, [FfmpegKill]) else (p, []))
      in (Ffmpeg (p1\<lparr>fp_isProcessing := False\<rparr>), e1))"
| "processor_stop (Microphone p) =
     (let (p1, e1) = (if mp_microphone p
                      then (p\<lparr>mp_microphone := False, mp_micStream := False\<rparr>, [MicStopRecording])
                      else (p, []));
          (p2, e2) = (if mp_resampler p1
                      then (p1\<lparr>mp_resampler := False\<rparr>, [ResamplerDestroy]) else (p1, []))
      in (Microphone (p2\<lparr>mp_isProcessing := False\<rparr>), e1 @ e2))"
| "processor_stop (StreamInput p) =
     (let (p1, e1) = (if sp_audioStream p
                      then (p\<lparr>sp_audioStream := False\<rparr>, [StreamEnd]) else (p, []))
      in (StreamInput (p1\<lparr>sp_isProcessing := False\<rparr>), e1))"

section \<open>MaestraClient (lib/maestra-client.js)\<close>

text \<open>
  \<open>streamProcessor\<close> refers to a processor object, which the caller of \<^verbatim>\<open>transcribe\<close> made
  and keeps: the objects live in a store, and the field holds an address or \<^verbatim>\<open>null\<close>.
  \<open>starting\<close> belongs to the runtime, not to an object: the microphone processors with a
  call of \<^verbatim>\<open>start()\<close> suspended at its \<^verbatim>\<open>await\<close>, oldest first.
\<close>

record maestra_client =
  voiceId :: jsval
  websocketClient :: "ws_client option"
  streamProcessor :: "nat option"
  isTranscribing :: bool

record sdk =
  mclient :: maestra_client
  processors :: "nat \<Rightarrow> processor"
  starting :: "nat list"

text \<open>The listeners \<^verbatim>\<open>_initWebSocketClient\<close> registers on the socket client.\<close>

fun forward :: "maestra_client \<Rightarrow> ws_emit \<Rightarrow> sdk_effect list" where
  "forward m EvReady = [ClientEmit ClReady]"
| "forward m (EvError e) = [ClientEmit (ClError (FromSocket e))]"
| "forward m EvDisconnect = [ClientEmit ClDisconnect]"
| "forward m (EvLanguageDetected l) = [ClientEmit (LanguageDetected l)]"
| "forward m (EvSegments segments) = [ClientEmit (InterimTranscription segments)]"
| "forward m (EvTranslatedSegments segments) = [ClientEmit (InterimTranslation segments)]"
| "forward m (EvFinalizedSegment segment) = [ClientEmit (FinalizedTranscription segment)]"
| "forward m (EvFinalizedTranslatedSegment segment) = [ClientEmit (FinalizedTranslation segment)]"
| "forward m (EvFinalizedSegmentAudioURL audioURL) =
     ClientEmit (FinalizedSegmentAudioUrl audioURL)
       # (if truthy (voiceId m) \<and> truthy audioURL then [PlayAudioUrl audioURL] else [])"
| "forward m (EvBinaryData bytes) = []"
| "forward m (EvTranscription data) = []"

fun forward_effect :: "maestra_client \<Rightarrow> effect \<Rightarrow> sdk_effect list" where
  "forward_effect m (Emit ev) = Ws (Emit ev) # forward m ev"
| "forward_effect m e = [Ws e]"

definition forward_effects :: "maestra_client \<Rightarrow> effect list \<Rightarrow> sdk_effect list" where
  "forward_effects m effs = concat (map (forward_effect m) effs)"

text \<open>The closure \<^verbatim>\<open>transcribe\<close> stores in \<^verbatim>\<open>streamProcessor.onAudioCallback\<close>.\<close>

definition client_sink :: "sdk \<Rightarrow> rat list \<Rightarrow> sdk \<times> sdk_effect list" where
  "client_sink w audioData =
     (case websocketClient (mclient w) of
        Some c \<Rightarrow>
          (let (c1, e1) = sendAudio c audioData
           in (w\<lparr>mclient := (mclient w)\<lparr>websocketClient := Some c1\<rparr>\<rparr>,
               forward_effects (mclient w) e1))
      | None \<Rightarrow> (w, []))"

text \<open>
  A processor calling \<^verbatim>\<open>this.onAudioCallback(audioData)\<close>. The call is recorded with the
  function the field holds, followed by what that function does: the closure of
  \<^verbatim>\<open>transcribe\<close> runs at once, the function of the options is outside the SDK.
\<close>

definition onAudioCallback :: "sdk \<Rightarrow> audio_callback \<Rightarrow> rat list \<Rightarrow> sdk \<times> sdk_effect list" where
  "onAudioCallback w cb audioData =
     (case cb of
        ToClient \<Rightarrow>
          (let (w1, e1) = client_sink w audioData in (w1, CallOnAudio ToClient audioData # e1))
      | FromOptions \<Rightarrow> (w, [CallOnAudio FromOptions audioData]))"

definition transcribe :: "sdk \<Rightarrow> nat \<Rightarrow> sdk \<times> sdk_effect list" where
  "transcribe w r =
     (if isTranscribing (mclient w) then (w, [ClientEmit (ClError AlreadyTranscribing)])
      else if websocketClient (mclient w) = None
              \<or> \<not> isServerReady (the (websocketClient (mclient w)))
        then (w, [ClientEmit (ClError NotConnectedOrNotReady)])
      else (let (p1, suspended) = processor_start (set_callback ToClient (processors w r))
            in (w\<lparr>mclient := (mclient w)\<lparr>streamProcessor := Some r, isTranscribing := True\<rparr>,
                  processors := (processors w)(r := p1),
                  starting := starting w @ (if suspended then [r] else [])\<rparr>,
                [ClientEmit TranscriptionStarted])))"

definition stop :: "sdk \<Rightarrow> sdk \<times> sdk_effect list" where
  "stop w =
     (let (w1, e1) = (case streamProcessor (mclient w) of
                        Some r \<Rightarrow>
                          (let (p1, e) = processor_stop (processors w r)
                           in (w\<lparr>mclient := (mclient w)\<lparr>streamProcessor := None\<rparr>,
                                 processors := (processors w)(r := p1)\<rparr>, e))
                      | None \<Rightarrow> (w, []));
          (w2, e2) = (case websocketClient (mclient w1) of
                        Some c \<Rightarrow>
                          (let (c1, e) = close c
                           in (w1\<lparr>mclient := (mclient w1)\<lparr>websocketClient := None\<rparr>\<rparr>,
                               forward_effects (mclient w1) e))
                      | None \<Rightarrow> (w1, []))
      in (w2\<lparr>mclient := (mclient w2)\<lparr>isTranscribing := False\<rparr>\<rparr>,
          e1 @ e2 @ [ClientEmit TranscriptionStopped]))"

text \<open>
  What happens to the SDK, one event at a time: the application calls \<^verbatim>\<open>transcribe\<close>,
  \<^verbatim>\<open>stop\<close> or \<^verbatim>\<open>pushAudio\<close>; a suspended \<^verbatim>\<open>start()\<close> of a microphone processor goes on;
  the pipe of a processor delivers a chunk. \<^verbatim>\<open>StreamInputProcessor.pushAudio\<close> tests the
  processor's state and hands the chunk to the stream, whose data listener calls
  \<^verbatim>\<open>onAudioCallback\<close>. The data listener of an FFmpeg processor calls \<^verbatim>\<open>onAudioCallback\<close>
  whenever the pipe delivers a chunk, and tests nothing. The transform of a microphone
  processor resamples first (the block is the resampled one), which is a TypeError once
  \<^verbatim>\<open>stop()\<close> has set the resampler to \<^verbatim>\<open>null\<close>; it is caught and passed to the error
  callback.
\<close>

datatype audio_event =
    CallTranscribe nat
  | StartResumed nat
  | PushAudio nat "rat list"
  | PipeData nat "rat list"
  | CallStop

fun deliver :: "sdk \<Rightarrow> audio_event \<Rightarrow> sdk \<times> sdk_effect list" where
  "deliver w (CallTranscribe r) = transcribe w r"
| "deliver w (StartResumed r) =
     (if r \<in> set (starting w)
      then (w\<lparr>processors := (processors w)(r := start_resumed (processors w r)),
              starting := remove1 r (starting w)\<rparr>, [])
      else (w, []))"
| "deliver w (PushAudio r audioChunk) =
     (case processors w r of
        StreamInput p \<Rightarrow>
          if sp_isProcessing p \<and> sp_audioStream p
          then onAudioCallback w (sp_onAudioCallback p) audioChunk
          else (w, [])
      | _ \<Rightarrow> (w, []))"
| "deliver w (PipeData r chunk) =
     (case processors w r of
        Ffmpeg p \<Rightarrow> onAudioCallback w (fp_onAudioCallback p) chunk
      | Microphone p \<Rightarrow>
          if mp_resampler p then onAudioCallback w (mp_onAudioCallback p) chunk
          else (w, [OnErrorCallback (FromProcessor TypeError)])
      | StreamInput p \<Rightarrow> (w, []))"
| "deliver w CallStop = stop w"

fun deliver_all :: "sdk \<Rightarrow> audio_event list \<Rightarrow> sdk \<times> sdk_effect list" where
  "deliver_all w [] = (w, [])"
| "deliver_all w (e # es) =
     (let (w1, e1) = deliver w e; (w2, e2) = deliver_all w1 es in (w2, e1 @ e2))"

section \<open>The resamplers of the web demo\<close>

text \<open>
  Samples and times are JavaScript numbers; the model computes with exact rationals, so it
  says what the code computes up to the rounding of doubles. The rates are positive (the
  rate of an \<^verbatim>\<open>AudioContext\<close> and the target rate 16000), where no division is by zero.
  \<open>result\<close> is a \<^verbatim>\<open>Float32Array\<close>: it starts as zeros, and a write beyond its length is
  ignored, as \<open>list_update\<close> does.
\<close>

definition targetSampleRate :: rat where
  "targetSampleRate = 16000"

subsection \<open>\<^verbatim>\<open>resample\<close>, called by the ScriptProcessor fallback on every buffer\<close>

text \<open>The \<^verbatim>\<open>while\<close> loop for one input sample. It need not end when a rate is not positive.\<close>

partial_function (option) resample_ticks ::
  "rat \<Rightarrow> rat \<Rightarrow> rat \<Rightarrow> rat \<Rightarrow> rat \<Rightarrow> rat \<Rightarrow> nat \<Rightarrow> rat list \<Rightarrow> (nat \<times> rat list) option" where
  "resample_ticks fromSampleRate toSampleRate highResTime nextHighResTime lastSample nextSample
      writeIndex result =
     (if of_nat writeIndex / toSampleRate < nextHighResTime
      then (let lowResTime = of_nat writeIndex / toSampleRate
            in if lowResTime < highResTime
               then resample_ticks fromSampleRate toSampleRate highResTime nextHighResTime
                      lastSample nextSample (writeIndex + 1) result
               else (let timeDiff = lowResTime - highResTime;
                         sampleTimeDiff = 1 / fromSampleRate
                     in resample_ticks fromSampleRate toSampleRate highResTime nextHighResTime
                          lastSample nextSample (writeIndex + 1)
                          (result[writeIndex :=
                             lastSample + (nextSample - lastSample) * (timeDiff / sampleTimeDiff)])))
      else Some (writeIndex, result))"

declare resample_ticks.simps [code]

text \<open>The \<^verbatim>\<open>for\<close> loop over the buffer, from index \<open>i\<close> on.\<close>

fun resample_loop ::
  "rat \<Rightarrow> rat \<Rightarrow> nat \<Rightarrow> rat list \<Rightarrow> rat \<Rightarrow> nat \<Rightarrow> rat list \<Rightarrow> rat list option" where
  "resample_loop fromSampleRate toSampleRate i [] nextSample writeIndex result = Some result"
| "resample_loop fromSampleRate toSampleRate i (x # xs) nextSample writeIndex result =
     (let lastSample = nextSample;
          highResTime = of_nat i / fromSampleRate;
          nextHighResTime = (of_nat i + 1) / fromSampleRate
      in case resample_ticks fromSampleRate toSampleRate highResTime nextHighResTime
                lastSample x writeIndex result of
           None \<Rightarrow> None
         | Some (writeIndex1, result1) \<Rightarrow>
             resample_loop fromSampleRate toSampleRate (i + 1) xs x writeIndex1 result1)"

text \<open>\<open>writeIndex\<close>, \<open>lastSample\<close> and \<open>nextSample\<close> are local: every call starts them at 0.\<close>

definition resample :: "rat list \<Rightarrow> rat \<Rightarrow> rat \<Rightarrow> rat list option" where
  "resample audioBuffer fromSampleRate toSampleRate =
     (if fromSampleRate = toSampleRate then Some audioBuffer
      else (let ratio = toSampleRate / fromSampleRate;
                newLength = nat \<lceil>of_nat (length audioBuffer) * ratio\<rceil>;
                result = replicate newLength 0
            in resample_loop fromSampleRate toSampleRate 0 audioBuffer 0 0 result))"

text \<open>
  \<^verbatim>\<open>onaudioprocess\<close> resamples each buffer on its own and sends the result: the stream the
  server receives is the concatenation.
\<close>

fun resample_blocks :: "rat list list \<Rightarrow> rat \<Rightarrow> rat \<Rightarrow> rat list option" where
  "resample_blocks [] fromSampleRate toSampleRate = Some []"
| "resample_blocks (b # bs) fromSampleRate toSampleRate =
     (case resample b fromSampleRate toSampleRate of
        None \<Rightarrow> None
      | Some out \<Rightarrow>
          (case resample_blocks bs fromSampleRate toSampleRate of
             None \<Rightarrow> None
           | Some outs \<Rightarrow> Some (out @ outs)))"

subsection \<open>\<^verbatim>\<open>Resampler.process\<close>, the AudioWorklet processor\<close>

record resampler =
  lastSample :: rat
  nextSample :: rat
  writeIndex :: nat

definition new_resampler :: resampler where
  "new_resampler = \<lparr>lastSample = 0, nextSample = 0, writeIndex = 0\<rparr>"

text \<open>
  The \<^verbatim>\<open>while\<close> loop for one input sample, on \<open>this.writeIndex\<close>, \<open>currentWriteIndex\<close> and
  \<open>result\<close>; \<open>ls\<close> and \<open>ns\<close> are \<open>this.lastSample\<close> and \<open>this.nextSample\<close>. The
  \<^verbatim>\<open>continue\<close> on a zero \<open>sampleTimeDiff\<close> repeats the loop in the same state.
\<close>

partial_function (option) process_ticks ::
  "rat \<Rightarrow> rat \<Rightarrow> rat \<Rightarrow> rat \<Rightarrow> rat \<Rightarrow> rat \<Rightarrow> nat \<Rightarrow> nat \<Rightarrow> rat list
     \<Rightarrow> (nat \<times> nat \<times> rat list) option" where
  "process_ticks fromSampleRate toSampleRate highResTime nextHighResTime ls ns
      wIndex currentWriteIndex result =
     (if of_nat wIndex / toSampleRate < nextHighResTime
      then (let lowResTime = of_nat wIndex / toSampleRate
            in if lowResTime < highResTime
               then process_ticks fromSampleRate toSampleRate highResTime nextHighResTime
                      ls ns (wIndex + 1) currentWriteIndex result
               else (let timeDiff = lowResTime - highResTime;
                         sampleTimeDiff = 1 / fromSampleRate
                     in if sampleTimeDiff = 0
                        then process_ticks fromSampleRate toSampleRate highResTime
                               nextHighResTime ls ns wIndex currentWriteIndex result
                        else process_ticks fromSampleRate toSampleRate highResTime
                               nextHighResTime ls ns (wIndex + 1) (currentWriteIndex + 1)
                               (result[currentWriteIndex :=
                                  ls + (ns - ls) * (timeDiff / sampleTimeDiff)])))
      else Some (wIndex, currentWriteIndex, result))"

declare process_ticks.simps [code]

text \<open>The \<^verbatim>\<open>for\<close> loop; \<open>currentFrame\<close> is the frame counter of the audio context.\<close>

fun process_loop ::
  "rat \<Rightarrow> rat \<Rightarrow> nat \<Rightarrow> nat \<Rightarrow> rat list \<Rightarrow> resampler \<Rightarrow> nat \<Rightarrow> rat list
     \<Rightarrow> (resampler \<times> nat \<times> rat list) option" where
  "process_loop fromSampleRate toSampleRate currentFrame i [] r currentWriteIndex result =
     Some (r, currentWriteIndex, result)"
| "process_loop fromSampleRate toSampleRate currentFrame i (x # xs) r currentWriteIndex result =
     (let ls = nextSample r;
          highResTime = (of_nat currentFrame + of_nat i) / fromSampleRate;
          nextHighResTime = (of_nat currentFrame + of_nat i + 1) / fromSampleRate
      in case process_ticks fromSampleRate toSampleRate highResTime nextHighResTime ls x
                (writeIndex r) currentWriteIndex result of
           None \<Rightarrow> None
         | Some (w1, cwi1, result1) \<Rightarrow>
             process_loop fromSampleRate toSampleRate currentFrame (i + 1) xs
               \<lparr>lastSample = ls, nextSample = x, writeIndex = w1\<rparr> cwi1 result1)"

text \<open>
  One call: the new state of the processor and the buffer posted to the main thread, if
  any. \<open>input\<close> is \<^verbatim>\<open>inputs[0][0]\<close>, which may be missing.
\<close>

definition process ::
  "rat \<Rightarrow> rat \<Rightarrow> nat \<Rightarrow> rat list option \<Rightarrow> resampler \<Rightarrow> (resampler \<times> rat list option) option" where
  "process fromSampleRate toSampleRate currentFrame input r =
     (case input of
        None \<Rightarrow> Some (r, None)
      | Some xs \<Rightarrow>
          (let ratio = toSampleRate / fromSampleRate;
               newLength = nat (\<lceil>of_nat (length xs) * ratio\<rceil> + 1);
               result = replicate newLength 0
           in case process_loop fromSampleRate toSampleRate currentFrame 0 xs r 0 result of
                None \<Rightarrow> None
              | Some (r1, currentWriteIndex, result1) \<Rightarrow>
                  Some (r1, if currentWriteIndex > 0
                            then Some (take currentWriteIndex result1) else None)))"

text \<open>
  Consecutive blocks through one processor: the frame counter advances by the length of
  each block, and the posted buffers are sent in order.
\<close>

fun process_blocks ::
  "rat \<Rightarrow> rat \<Rightarrow> nat \<Rightarrow> rat list list \<Rightarrow> resampler \<Rightarrow> (resampler \<times> rat list) option" where
  "process_blocks fromSampleRate toSampleRate currentFrame [] r = Some (r, [])"
| "process_blocks fromSampleRate toSampleRate currentFrame (b # bs) r =
     (case process fromSampleRate toSampleRate currentFrame (Some b) r of
        None \<Rightarrow> None
      | Some (r1, posted) \<Rightarrow>
          (case process_blocks fromSampleRate toSampleRate (currentFrame + length b) bs r1 of
             None \<Rightarrow> None
           | Some (r2, outs) \<Rightarrow>
               Some (r2, (case posted of None \<Rightarrow> [] | Some out \<Rightarrow> out) @ outs)))"

section \<open>Vocabulary of the statements\<close>

subsection \<open>The tests of the message handler\<close>

text \<open>
  The tests of \<^verbatim>\<open>_handleMessage\<close>, named: the message passes the \<open>uid\<close> filter; it is a
  hard error; the text the error branch works with; the language branch takes it; it reaches
  the part of the handler that emits transcription events.
\<close>

definition addressed :: "ws_client \<Rightarrow> jsval \<Rightarrow> bool" where
  "addressed c data = (\<not> (truthy (js_prop data ''uid'') \<and> js_prop data ''uid'' \<noteq> JStr (uuid c)))"

definition hard_error :: "jsval \<Rightarrow> bool" where
  "hard_error data = (js_prop data ''status'' = JStr ''ERROR'' \<or> truthy (js_prop data ''error''))"

definition errorMessage_of :: "jsval \<Rightarrow> jsval" where
  "errorMessage_of data = js_or (js_prop data ''message'') (js_or (js_prop data ''error'') (JStr ''Unknown error''))"

definition language_detected :: "ws_client \<Rightarrow> jsval \<Rightarrow> bool" where
  "language_detected c data = (sourceLanguage c = JNull \<and> truthy (js_prop data ''language''))"

definition reaches_regular :: "ws_client \<Rightarrow> jsval \<Rightarrow> bool" where
  "reaches_regular c data =
     (\<not> nullish data \<and> addressed c data \<and> js_prop data ''status'' \<noteq> JStr ''WAIT''
      \<and> \<not> hard_error data \<and> isServerReady c
      \<and> \<not> language_detected c data
      \<and> js_prop data ''message'' \<noteq> JStr ''DISCONNECT'')"




text \<open>The payloads of the \<^verbatim>\<open>interim-transcription\<close> events among the effects of MaestraClient.\<close>

fun interim_events :: "sdk_effect list \<Rightarrow> jsval list list" where
  "interim_events [] = []"
| "interim_events (ClientEmit (InterimTranscription segments) # es) = segments # interim_events es"
| "interim_events (e # es) = interim_events es"

subsection \<open>Connection attempts\<close>

text \<open>
  The events that end a connection attempt with the timer cancelled: a message that is a
  hard error, that makes the server ready or that is a DISCONNECT handled as such; a call
  of \<^verbatim>\<open>close()\<close>; the timer firing.
\<close>

fun ends_attempt :: "ws_client \<Rightarrow> event \<Rightarrow> bool" where
  "ends_attempt c (SocketMessage (Json data)) =
     (\<not> nullish data \<and> addressed c data \<and> js_prop data ''status'' \<noteq> JStr ''WAIT''
      \<and> (hard_error data \<or> \<not> isServerReady c
           \<or> (\<not> language_detected c data \<and> js_prop data ''message'' = JStr ''DISCONNECT'')))"
| "ends_attempt c CallClose = True"
| "ends_attempt c (TimerFired t) = True"
| "ends_attempt c e = False"

text \<open>
  The invariant of an attempt: a pending timer is the one \<open>connectionTimer\<close> holds, and none
  is pending while the socket is connecting. A handler either leaves the timers and the
  field alone, or cancels the timer the field holds and clears the field. \<open>not_opened\<close>: the
  socket has not been open, so that no message can have been delivered.
\<close>

definition timer_inv :: "world \<Rightarrow> bool" where
  "timer_inv w = (pending w \<subseteq> set_option (connectionTimer (client w))
                  \<and> (socket (client w) = Some CONNECTING \<longrightarrow> pending w = {}))"

definition keeps_timer :: "ws_client \<Rightarrow> ws_client \<times> effect list \<Rightarrow> bool" where
  "keeps_timer c r = (connectionTimer (fst r) = connectionTimer c
                      \<and> (\<forall>P. foldl timer_effect P (snd r) = P))"

definition cancels_timer :: "ws_client \<Rightarrow> ws_client \<times> effect list \<Rightarrow> bool" where
  "cancels_timer c r = (connectionTimer (fst r) = None
                      \<and> (\<forall>P. foldl timer_effect P (snd r) = P - set_option (connectionTimer c)))"


subsection \<open>Example values\<close>

text \<open>
  A client right after \<^verbatim>\<open>connect()\<close>, after the handshake, and after the server is ready,
  each alone and in its runtime; messages and segments; a MaestraClient, alone and with a
  started StreamInputProcessor attached at address 0; the effects of a short session.
\<close>

definition connecting_client :: ws_client where
  "connecting_client = \<lparr>uuid = ''client-1'', sourceLanguage = JNull, apiKey = JStr ''key'',
     socket = Some CONNECTING, isServerReady = False, connectionTimer = None\<rparr>"

definition waiting_client :: ws_client where
  "waiting_client = \<lparr>uuid = ''client-1'', sourceLanguage = JNull, apiKey = JStr ''key'',
     socket = Some OPEN, isServerReady = False, connectionTimer = Some 0\<rparr>"

definition ready_client :: ws_client where
  "ready_client = \<lparr>uuid = ''client-1'', sourceLanguage = JNull, apiKey = JStr ''key'',
     socket = Some OPEN, isServerReady = True, connectionTimer = None\<rparr>"

definition connecting_world :: world where
  "connecting_world = \<lparr>client = connecting_client, pending = {}\<rparr>"

definition waiting_world :: world where
  "waiting_world = \<lparr>client = waiting_client, pending = {0}\<rparr>"

definition ready_world :: world where
  "ready_world = \<lparr>client = ready_client, pending = {}\<rparr>"

definition wait_message :: jsval where
  "wait_message = JObj [(''status'', JStr ''WAIT''), (''message'', JStr ''Server is full'')]"


definition seg_hi :: jsval where
  "seg_hi = JObj [(''text'', JStr ''hi''), (''completed'', JBool False)]"

definition seg_done :: jsval where
  "seg_done = JObj [(''text'', JStr ''old''), (''completed'', JBool True)]"

definition seg_untagged :: jsval where
  "seg_untagged = JObj [(''text'', JStr ''plain'')]"

definition seg_first :: jsval where
  "seg_first = JObj [(''text'', JStr ''first''), (''completed'', JBool False)]"



definition plain_maestra :: maestra_client where
  "plain_maestra = \<lparr>voiceId = JNull, websocketClient = Some ready_client,
                     streamProcessor = None, isTranscribing = False\<rparr>"

definition ready_sdk :: sdk where
  "ready_sdk = \<lparr>mclient = \<lparr>voiceId = JNull, websocketClient = Some ready_client,
                   streamProcessor = Some 0, isTranscribing = True\<rparr>,
               processors = (\<lambda>r. StreamInput \<lparr>sp_audioStream = True, sp_isProcessing = True,
                                               sp_onAudioCallback = ToClient\<rparr>),
               starting = []\<rparr>"

text \<open>
  The three processors as their constructors leave them, and a connected, ready client that
  is not transcribing, with such a processor at every address.
\<close>

definition new_ffmpeg :: processor where
  "new_ffmpeg = Ffmpeg \<lparr>fp_ffmpegProcess = False, fp_isProcessing = False,
                         fp_onAudioCallback = FromOptions\<rparr>"

definition new_microphone :: processor where
  "new_microphone = Microphone \<lparr>mp_microphone = False, mp_micStream = False, mp_resampler = False,
                                 mp_isProcessing = False, mp_onAudioCallback = FromOptions\<rparr>"

definition new_stream_input :: processor where
  "new_stream_input = StreamInput \<lparr>sp_audioStream = False, sp_isProcessing = False,
                                    sp_onAudioCallback = FromOptions\<rparr>"

definition idle_sdk :: "processor \<Rightarrow> sdk" where
  "idle_sdk p = \<lparr>mclient = plain_maestra, processors = (\<lambda>r. p), starting = []\<rparr>"

subsection \<open>The loops of the AudioWorklet processor without the buffer\<close>

text \<open>
  Functions the continuity proof compares the code with. \<open>ticks_vals\<close> is the \<^verbatim>\<open>while\<close> loop
  for one sample where the target rate is positive: the write index it ends with and the
  values it emits. \<open>write_all\<close> writes values into a buffer from an index on, as the loop
  does. \<open>loop_vals\<close> is the \<^verbatim>\<open>for\<close> loop from the sample with global index \<open>g\<close> on.
  \<open>tick_no x\<close> is the first tick at or after \<open>x\<close>, and \<open>tick_of f t k\<close> the first output tick
  not before input sample \<open>k\<close>.
\<close>

function ticks_vals :: "rat \<Rightarrow> rat \<Rightarrow> rat \<Rightarrow> rat \<Rightarrow> rat \<Rightarrow> rat \<Rightarrow> nat \<Rightarrow> nat \<times> rat list" where
  "ticks_vals f t hi nhi ls ns w =
     (if 0 < t \<and> of_nat w / t < nhi
      then (if of_nat w / t < hi then ticks_vals f t hi nhi ls ns (w + 1)
            else (case ticks_vals f t hi nhi ls ns (w + 1) of
                    (w', vs) \<Rightarrow> (w', (ls + (ns - ls) * ((of_nat w / t - hi) / (1 / f))) # vs)))
      else (w, []))"
  by pat_completeness auto

termination
proof (relation "measure (\<lambda>(f, t, hi, nhi, ls, ns, w). nat \<lceil>nhi * t\<rceil> - w)")
  show "wf (measure (\<lambda>(f, t, hi, nhi, ls, ns, w). nat \<lceil>nhi * t\<rceil> - w))" by simp
next
  fix f t hi nhi ls ns :: rat and w :: nat
  assume a: "0 < t \<and> of_nat w / t < nhi"
  then have "of_nat w < nhi * t" by (auto simp: field_simps)
  then have "int w < \<lceil>nhi * t\<rceil>" by (simp add: less_ceiling_iff)
  then show "((f, t, hi, nhi, ls, ns, w + 1), (f, t, hi, nhi, ls, ns, w))
        \<in> measure (\<lambda>(f, t, hi, nhi, ls, ns, w). nat \<lceil>nhi * t\<rceil> - w)"
    by simp
  then show "((f, t, hi, nhi, ls, ns, w + 1), (f, t, hi, nhi, ls, ns, w))
        \<in> measure (\<lambda>(f, t, hi, nhi, ls, ns, w). nat \<lceil>nhi * t\<rceil> - w)" .
qed

declare ticks_vals.simps [simp del]

fun write_all :: "rat list \<Rightarrow> nat \<Rightarrow> rat list \<Rightarrow> rat list" where
  "write_all result k [] = result"
| "write_all result k (v # vs) = write_all (result[k := v]) (k + 1) vs"

fun loop_vals :: "rat \<Rightarrow> rat \<Rightarrow> nat \<Rightarrow> rat list \<Rightarrow> resampler \<Rightarrow> resampler \<times> rat list" where
  "loop_vals f t g [] r = (r, [])"
| "loop_vals f t g (x # xs) r =
     (case ticks_vals f t (of_nat g / f) ((of_nat g + 1) / f) (nextSample r) x (writeIndex r) of
        (w1, vs) \<Rightarrow>
          (case loop_vals f t (g + 1) xs \<lparr>lastSample = nextSample r, nextSample = x, writeIndex = w1\<rparr> of
             (r2, vs2) \<Rightarrow> (r2, vs @ vs2)))"

definition tick_no :: "rat \<Rightarrow> nat" where
  "tick_no x = nat \<lceil>x\<rceil>"

definition tick_of :: "rat \<Rightarrow> rat \<Rightarrow> nat \<Rightarrow> nat" where
  "tick_of f t k = tick_no (of_nat k / f * t)"

section \<open>The branches of the message handler\<close>

lemma close_effects: "set (snd (close c)) \<subseteq> range ClearTimeout \<union> {SocketClose}"
  by (auto simp: close_def clear_timer_def split: option.splits prod.splits)

lemma clear_timer_effects: "set (snd (clear_timer c)) \<subseteq> range ClearTimeout"
  by (auto simp: clear_timer_def split: option.splits)

lemma handleJson_alt:
  "handleJson c data =
     (if nullish data then (c, error_effects (Thrown TypeError))
      else if \<not> addressed c data then (c, [])
      else if js_prop data ''status'' = JStr ''WAIT''
        then (c, error_effects (ServerMessage (js_prop data ''message'')))
      else if hard_error data
        then (fst (clear_timer c), snd (clear_timer c) @ error_effects
                (case isAuthenticationError (errorMessage_of data) data of
                   Inl exn \<Rightarrow> Thrown exn
                 | Inr True \<Rightarrow> AuthenticationError
                 | Inr False \<Rightarrow> ConnectionFailed (errorMessage_of data)))
      else if \<not> isServerReady c
        then (fst (clear_timer (c\<lparr>isServerReady := True\<rparr>)),
              snd (clear_timer (c\<lparr>isServerReady := True\<rparr>)) @ [CbOnReady, Emit EvReady])
      else if language_detected c data
        then (c\<lparr>sourceLanguage := js_prop data ''language''\<rparr>,
              [CbOnLanguageDetected (js_prop data ''language''),
               Emit (EvLanguageDetected (js_prop data ''language''))])
      else if js_prop data ''message'' = JStr ''DISCONNECT''
        then (fst (close c), [CbOnClose, Emit EvDisconnect] @ snd (close c))
      else case regular_effects data of
             Inl exn \<Rightarrow> (c, error_effects (Thrown exn))
           | Inr es \<Rightarrow> (c, es))"
  unfolding handleJson_def addressed_def hard_error_def language_detected_def errorMessage_of_def Let_def
  by (simp add: case_prod_beta split: sum.split bool.split)

lemma handleJson_null: "nullish data \<Longrightarrow> handleJson c data = (c, error_effects (Thrown TypeError))"
  by (simp add: handleJson_alt)

lemma handleJson_other:
  "\<not> nullish data \<Longrightarrow> \<not> addressed c data \<Longrightarrow> handleJson c data = (c, [])"
  by (simp add: handleJson_alt)

lemma handleJson_wait:
  "\<not> nullish data \<Longrightarrow> addressed c data \<Longrightarrow> js_prop data ''status'' = JStr ''WAIT'' \<Longrightarrow>
   handleJson c data = (c, error_effects (ServerMessage (js_prop data ''message'')))"
  by (simp add: handleJson_alt)

lemma handleJson_error:
  "\<not> nullish data \<Longrightarrow> addressed c data \<Longrightarrow> js_prop data ''status'' \<noteq> JStr ''WAIT'' \<Longrightarrow>
   hard_error data \<Longrightarrow>
   handleJson c data =
     (fst (clear_timer c), snd (clear_timer c) @ error_effects
        (case isAuthenticationError (errorMessage_of data) data of
           Inl exn \<Rightarrow> Thrown exn
         | Inr True \<Rightarrow> AuthenticationError
         | Inr False \<Rightarrow> ConnectionFailed (errorMessage_of data)))"
  by (simp add: handleJson_alt)

lemma handleJson_ready:
  "\<not> nullish data \<Longrightarrow> addressed c data \<Longrightarrow> js_prop data ''status'' \<noteq> JStr ''WAIT'' \<Longrightarrow>
   \<not> hard_error data \<Longrightarrow> \<not> isServerReady c \<Longrightarrow>
   handleJson c data =
     (fst (clear_timer (c\<lparr>isServerReady := True\<rparr>)),
      snd (clear_timer (c\<lparr>isServerReady := True\<rparr>)) @ [CbOnReady, Emit EvReady])"
  by (simp add: handleJson_alt)

lemma handleJson_language:
  "\<not> nullish data \<Longrightarrow> addressed c data \<Longrightarrow> js_prop data ''status'' \<noteq> JStr ''WAIT'' \<Longrightarrow>
   \<not> hard_error data \<Longrightarrow> isServerReady c \<Longrightarrow> language_detected c data \<Longrightarrow>
   handleJson c data =
     (c\<lparr>sourceLanguage := js_prop data ''language''\<rparr>,
      [CbOnLanguageDetected (js_prop data ''language''),
       Emit (EvLanguageDetected (js_prop data ''language''))])"
  by (simp add: handleJson_alt)

lemma handleJson_disconnect:
  "\<not> nullish data \<Longrightarrow> addressed c data \<Longrightarrow> js_prop data ''status'' \<noteq> JStr ''WAIT'' \<Longrightarrow>
   \<not> hard_error data \<Longrightarrow> isServerReady c \<Longrightarrow> \<not> language_detected c data \<Longrightarrow>
   js_prop data ''message'' = JStr ''DISCONNECT'' \<Longrightarrow>
   handleJson c data = (fst (close c), [CbOnClose, Emit EvDisconnect] @ snd (close c))"
  by (simp add: handleJson_alt)

lemma handleJson_regular:
  "reaches_regular c data \<Longrightarrow>
   handleJson c data =
     (case regular_effects data of
        Inl exn \<Rightarrow> (c, error_effects (Thrown exn))
      | Inr es \<Rightarrow> (c, es))"
  by (simp add: handleJson_alt reaches_regular_def)

lemma handleJson_cases [case_names null other wait error ready language disconnect regular]:
  assumes "nullish data \<Longrightarrow> P"
    and "\<not> nullish data \<Longrightarrow> \<not> addressed c data \<Longrightarrow> P"
    and "\<not> nullish data \<Longrightarrow> addressed c data \<Longrightarrow> js_prop data ''status'' = JStr ''WAIT'' \<Longrightarrow> P"
    and "\<not> nullish data \<Longrightarrow> addressed c data \<Longrightarrow> js_prop data ''status'' \<noteq> JStr ''WAIT'' \<Longrightarrow>
         hard_error data \<Longrightarrow> P"
    and "\<not> nullish data \<Longrightarrow> addressed c data \<Longrightarrow> js_prop data ''status'' \<noteq> JStr ''WAIT'' \<Longrightarrow>
         \<not> hard_error data \<Longrightarrow> \<not> isServerReady c \<Longrightarrow> P"
    and "\<not> nullish data \<Longrightarrow> addressed c data \<Longrightarrow> js_prop data ''status'' \<noteq> JStr ''WAIT'' \<Longrightarrow>
         \<not> hard_error data \<Longrightarrow> isServerReady c \<Longrightarrow> language_detected c data \<Longrightarrow> P"
    and "\<not> nullish data \<Longrightarrow> addressed c data \<Longrightarrow> js_prop data ''status'' \<noteq> JStr ''WAIT'' \<Longrightarrow>
         \<not> hard_error data \<Longrightarrow> isServerReady c \<Longrightarrow> \<not> language_detected c data \<Longrightarrow>
         js_prop data ''message'' = JStr ''DISCONNECT'' \<Longrightarrow> P"
    and "reaches_regular c data \<Longrightarrow> P"
  shows P
  using assms unfolding reaches_regular_def by blast

lemma currentInterim_Inr:
  "currentInterim segs = Inr cur \<Longrightarrow>
   \<exists>xs. segs = JArr xs \<and> \<not> list_ex nullish xs
      \<and> cur = filter (\<lambda>segment. js_prop segment ''completed'' = JBool False) xs"
  by (cases segs) (simp_all add: currentInterim_def split: if_splits)

lemma regular_effects_segments:
  assumes "regular_effects data = Inr es" "Emit (EvSegments cur) \<in> set es"
  shows "\<exists>xs. js_prop data ''segments'' = JArr xs \<and> \<not> list_ex nullish xs
           \<and> cur = filter (\<lambda>segment. js_prop segment ''completed'' = JBool False) xs \<and> cur \<noteq> []"
proof (cases "truthy (js_prop data ''segments'')")
  case False
  with assms show ?thesis by (auto simp: regular_effects_def split: if_splits)
next
  case True
  show ?thesis
  proof (cases "currentInterim (js_prop data ''segments'')")
    case (Inl e)
    with True assms show ?thesis by (simp add: regular_effects_def)
  next
    case (Inr cur')
    with True assms have "cur = cur' \<and> cur' \<noteq> []"
      by (auto simp: regular_effects_def split: if_splits)
    with currentInterim_Inr[OF Inr] show ?thesis by auto
  qed
qed

lemma handleJson_segments:
  assumes "Emit (EvSegments cur) \<in> set (snd (handleJson c data))"
  shows "reaches_regular c data \<and> (\<exists>xs. js_prop data ''segments'' = JArr xs \<and> \<not> list_ex nullish xs
           \<and> cur = filter (\<lambda>segment. js_prop segment ''completed'' = JBool False) xs \<and> cur \<noteq> [])"
proof -
  have ce: "Emit (EvSegments cur) \<notin> set (snd (close c))" using close_effects[of c] by auto
  have ct: "\<And>c'. Emit (EvSegments cur) \<notin> set (snd (clear_timer c'))" using clear_timer_effects by auto
  show ?thesis
  proof (cases rule: handleJson_cases[where data=data and c=c])
    case null
    with assms show ?thesis by (simp add: handleJson_null error_effects_def)
  next
    case other
    with assms show ?thesis by (simp add: handleJson_other)
  next
    case wait
    with assms show ?thesis by (simp add: handleJson_wait error_effects_def)
  next
    case error
    with assms ct show ?thesis by (simp add: handleJson_error error_effects_def)
  next
    case ready
    with assms ct show ?thesis by (simp add: handleJson_ready)
  next
    case language
    with assms show ?thesis by (simp add: handleJson_language)
  next
    case disconnect
    with assms ce show ?thesis by (simp add: handleJson_disconnect)
  next
    case regular
    with assms show ?thesis
      by (auto simp: handleJson_regular error_effects_def split: sum.splits dest: regular_effects_segments)
  qed
qed

lemma js_prop_nullish: "nullish data \<Longrightarrow> js_prop data k = JUndefined"
  by (cases data) auto

lemma handleMessage_Json: "handleMessage c (Json data) = handleJson c data"
  by (simp add: handleMessage_def)

lemma str_includes_sublist: "str_includes s kw \<longleftrightarrow> sublist kw s"
  by (induction s) (auto simp: sublist_Cons_right prefix_def, (metis append_take_drop_id)+)

lemma list_ex_keywords:
  "list_ex (\<lambda>keyword. str_includes m keyword) authKeywords
     \<longleftrightarrow> (\<exists>keyword \<in> set authKeywords. sublist keyword m)"
  by (simp add: list_ex_iff str_includes_sublist)

section \<open>Status messages and hard errors\<close>

text \<open>
  C4, as stated: a message with status WAIT is forwarded as an event of its own, not through
  the error channel of hard errors. It is false: the handler makes an \<^verbatim>\<open>Error\<close> of the text,
  calls \<^verbatim>\<open>onError\<close> and emits \<^verbatim>\<open>error\<close>, exactly as it does for a hard error.
\<close>

theorem wait_on_error_channel_counterexample:
  "handleMessage waiting_client
     (Json (JObj [(''status'', JStr ''WAIT''), (''message'', JStr ''Server is full'')]))
   = (waiting_client,
      [CbOnError (ServerMessage (JStr ''Server is full'')),
       Emit (EvError (ServerMessage (JStr ''Server is full'')))])
   \<and> handleMessage waiting_client
     (Json (JObj [(''status'', JStr ''ERROR''), (''message'', JStr ''internal failure'')]))
   = (waiting_client\<lparr>connectionTimer := None\<rparr>,
      [ClearTimeout 0,
       CbOnError (ConnectionFailed (JStr ''internal failure'')),
       Emit (EvError (ConnectionFailed (JStr ''internal failure'')))])"
  by code_simp

text \<open>
  C4, amended: every message addressed to this client with status WAIT is surfaced through
  the error channel (the \<^verbatim>\<open>onError\<close> callback, then the \<^verbatim>\<open>error\<close> event) as an \<^verbatim>\<open>Error\<close> whose
  text is the message text of the server, without the prefix of hard errors, and the client
  is left as it was: the timer stays armed, the server is not marked ready, the socket is
  not closed.
\<close>

theorem wait_forwarded_as_error:
  assumes "addressed c data" and "js_prop data ''status'' = JStr ''WAIT''"
  shows "handleMessage c (Json data) =
           (c, [CbOnError (ServerMessage (js_prop data ''message'')),
                Emit (EvError (ServerMessage (js_prop data ''message'')))])"
proof -
  have "\<not> nullish data" using assms(2) js_prop_nullish[of data] by auto
  then show ?thesis using assms
    by (simp add: handleMessage_Json handleJson_wait error_effects_def)
qed

theorem wait_forwarded_as_error_witness:
  "addressed waiting_client (JObj [(''status'', JStr ''WAIT''), (''message'', JStr ''Server is full'')])
   \<and> js_prop (JObj [(''status'', JStr ''WAIT''), (''message'', JStr ''Server is full'')]) ''status'' = JStr ''WAIT''
   \<and> handleMessage waiting_client (Json (JObj [(''status'', JStr ''WAIT''), (''message'', JStr ''Server is full'')]))
      = (waiting_client, [CbOnError (ServerMessage (JStr ''Server is full'')),
                Emit (EvError (ServerMessage (JStr ''Server is full'')))])"
proof -
  let ?d = "JObj [(''status'', JStr ''WAIT''), (''message'', JStr ''Server is full'')]"
  have a: "addressed waiting_client ?d" by (simp add: addressed_def)
  have b: "js_prop ?d ''status'' = JStr ''WAIT''" by simp
  from wait_forwarded_as_error[OF a b] a b show ?thesis by simp
qed

text \<open>
  C5, as stated: every inbound message with status ERROR or with an \<open>error\<close> field is
  classified, as an authentication error if its text contains a keyword or its
  \<open>status_code\<close> is 401 or 403, and as a generic error otherwise. It is false. A text that is
  not a string (a number in \<open>message\<close>, an object in \<open>error\<close>) makes
  \<^verbatim>\<open>errorMessage.toLowerCase()\<close> throw before \<open>status_code\<close> is looked at, and the handler
  reports the TypeError it caught. A WAIT status is handled before the error test and is
  reported with its own text. An \<open>error\<close> field that is present and falsy is no error for
  the handler: the message makes the server ready. A message for another client is dropped.
  In all five messages \<open>status_code\<close> is 401, or the text contains \<^verbatim>\<open>unauthorized\<close>.
\<close>

theorem hard_error_unclassified_counterexample:
  "handleMessage waiting_client
     (Json (JObj [(''status'', JStr ''ERROR''), (''status_code'', JNum 401), (''message'', JNum 42)]))
   = (waiting_client\<lparr>connectionTimer := None\<rparr>,
      [ClearTimeout 0, CbOnError (Thrown TypeError), Emit (EvError (Thrown TypeError))])
   \<and> handleMessage waiting_client
     (Json (JObj [(''error'', JObj [(''code'', JNum 401), (''message'', JStr ''unauthorized'')])]))
   = (waiting_client\<lparr>connectionTimer := None\<rparr>,
      [ClearTimeout 0, CbOnError (Thrown TypeError), Emit (EvError (Thrown TypeError))])
   \<and> handleMessage waiting_client
     (Json (JObj [(''status'', JStr ''WAIT''), (''status_code'', JNum 401), (''error'', JStr ''unauthorized'')]))
   = (waiting_client,
      [CbOnError (ServerMessage JUndefined), Emit (EvError (ServerMessage JUndefined))])
   \<and> handleMessage waiting_client
     (Json (JObj [(''error'', JStr []), (''status_code'', JNum 401)]))
   = (waiting_client\<lparr>isServerReady := True, connectionTimer := None\<rparr>,
      [ClearTimeout 0, CbOnReady, Emit EvReady])
   \<and> handleMessage waiting_client
     (Json (JObj [(''uid'', JStr ''client-2''), (''status'', JStr ''ERROR''), (''status_code'', JNum 401),
                  (''message'', JStr ''invalid token'')]))
   = (waiting_client, [])"
  by code_simp

text \<open>
  C5, amended: a message addressed to this client that is not a WAIT status and is a hard
  error (status ERROR, or a truthy \<open>error\<close> field), and whose message text is a string \<open>s\<close>
  (the text is the \<open>message\<close> field if truthy, else the \<open>error\<close> field if truthy, else
  \<^verbatim>\<open>Unknown error\<close>), is reported as an authentication error if and only if \<open>s\<close> in lower
  case contains one of the keywords, or \<open>status_code\<close> is 401 or 403; otherwise it is reported
  as a generic failure carrying \<open>s\<close>. In both cases the connection timer is cancelled first.
  What the handler does with a text that is not a string is left open.
\<close>

theorem hard_error_classification:
  assumes "addressed c data"
    and "js_prop data ''status'' \<noteq> JStr ''WAIT''"
    and "js_prop data ''status'' = JStr ''ERROR'' \<or> truthy (js_prop data ''error'')"
    and "errorMessage_of data = JStr s"
  shows "handleMessage c (Json data) =
    (fst (clear_timer c), snd (clear_timer c) @
       (if (\<exists>keyword \<in> set authKeywords. sublist keyword (toLowerCase s))
            \<or> js_prop data ''status_code'' = JNum 401 \<or> js_prop data ''status_code'' = JNum 403
        then [CbOnError AuthenticationError, Emit (EvError AuthenticationError)]
        else [CbOnError (ConnectionFailed (JStr s)), Emit (EvError (ConnectionFailed (JStr s)))]))"
proof -
  have he: "hard_error data" using assms(3) by (simp add: hard_error_def)
  have nn: "\<not> nullish data" using assms(3) js_prop_nullish[of data] by auto
  have s: "s \<noteq> []" using assms(4) by (auto simp: errorMessage_of_def js_or_def split: if_splits)
  have ia: "isAuthenticationError (JStr s) data = Inr ((\<exists>keyword \<in> set authKeywords. sublist keyword (toLowerCase s))
            \<or> js_prop data ''status_code'' = JNum 401 \<or> js_prop data ''status_code'' = JNum 403)"
    using s by (auto simp: isAuthenticationError_def Let_def list_ex_keywords)
  show ?thesis
    using nn assms(1,2,4) he ia
    by (simp add: handleMessage_Json handleJson_error error_effects_def)
qed

text \<open>
  The two messages of the claim, and three more: a text that only matches a keyword after
  lower-casing, with no \<open>status_code\<close>; a text without a keyword with \<open>status_code\<close> 403; a
  message without \<open>status\<close> and \<open>message\<close> whose \<open>error\<close> field is the text.
\<close>

lemma keywords_evaluated:
  "list_ex (\<lambda>keyword. str_includes (toLowerCase ''Invalid Token'') keyword) authKeywords
   \<and> list_ex (\<lambda>keyword. str_includes (toLowerCase ''Access Denied'') keyword) authKeywords
   \<and> \<not> list_ex (\<lambda>keyword. str_includes (toLowerCase ''internal failure'') keyword) authKeywords"
  by code_simp

theorem hard_error_classification_witness:
  "handleMessage waiting_client
     (Json (JObj [(''status'', JStr ''ERROR''), (''status_code'', JNum 401), (''message'', JStr ''invalid token'')]))
   = (waiting_client\<lparr>connectionTimer := None\<rparr>,
      [ClearTimeout 0, CbOnError AuthenticationError, Emit (EvError AuthenticationError)])
   \<and> handleMessage waiting_client
     (Json (JObj [(''status'', JStr ''ERROR''), (''message'', JStr ''internal failure'')]))
   = (waiting_client\<lparr>connectionTimer := None\<rparr>,
      [ClearTimeout 0, CbOnError (ConnectionFailed (JStr ''internal failure'')),
       Emit (EvError (ConnectionFailed (JStr ''internal failure'')))])
   \<and> handleMessage waiting_client
     (Json (JObj [(''status'', JStr ''ERROR''), (''message'', JStr ''Invalid Token'')]))
   = (waiting_client\<lparr>connectionTimer := None\<rparr>,
      [ClearTimeout 0, CbOnError AuthenticationError, Emit (EvError AuthenticationError)])
   \<and> handleMessage waiting_client
     (Json (JObj [(''status'', JStr ''ERROR''), (''status_code'', JNum 403), (''message'', JStr ''internal failure'')]))
   = (waiting_client\<lparr>connectionTimer := None\<rparr>,
      [ClearTimeout 0, CbOnError AuthenticationError, Emit (EvError AuthenticationError)])
   \<and> handleMessage waiting_client (Json (JObj [(''error'', JStr ''Access Denied'')]))
   = (waiting_client\<lparr>connectionTimer := None\<rparr>,
      [ClearTimeout 0, CbOnError AuthenticationError, Emit (EvError AuthenticationError)])"
proof -
  let ?da = "JObj [(''status'', JStr ''ERROR''), (''status_code'', JNum 401), (''message'', JStr ''invalid token'')]"
  let ?db = "JObj [(''status'', JStr ''ERROR''), (''message'', JStr ''internal failure'')]"
  let ?dc = "JObj [(''status'', JStr ''ERROR''), (''message'', JStr ''Invalid Token'')]"
  let ?dd = "JObj [(''status'', JStr ''ERROR''), (''status_code'', JNum 403), (''message'', JStr ''internal failure'')]"
  let ?de = "JObj [(''error'', JStr ''Access Denied'')]"
  let ?auth = "(waiting_client\<lparr>connectionTimer := None\<rparr>,
      [ClearTimeout 0, CbOnError AuthenticationError, Emit (EvError AuthenticationError)])"
  have ct: "clear_timer waiting_client = (waiting_client\<lparr>connectionTimer := None\<rparr>, [ClearTimeout 0])"
    by (simp add: clear_timer_def waiting_client_def)
  have kw: "\<exists>keyword \<in> set authKeywords. sublist keyword (toLowerCase ''Invalid Token'')"
    "\<exists>keyword \<in> set authKeywords. sublist keyword (toLowerCase ''Access Denied'')"
    "\<not> (\<exists>keyword \<in> set authKeywords. sublist keyword (toLowerCase ''internal failure''))"
    using keywords_evaluated unfolding list_ex_keywords by blast+
  have a1: "addressed waiting_client ?da" by (simp add: addressed_def)
  have b1: "js_prop ?da ''status'' \<noteq> JStr ''WAIT''" by simp
  have c1: "js_prop ?da ''status'' = JStr ''ERROR'' \<or> truthy (js_prop ?da ''error'')" by simp
  have d1: "errorMessage_of ?da = JStr ''invalid token''" by (simp add: errorMessage_of_def js_or_def)
  have e1: "js_prop ?da ''status_code'' = JNum 401" by simp
  have a2: "addressed waiting_client ?db" by (simp add: addressed_def)
  have b2: "js_prop ?db ''status'' \<noteq> JStr ''WAIT''" by simp
  have c2: "js_prop ?db ''status'' = JStr ''ERROR'' \<or> truthy (js_prop ?db ''error'')" by simp
  have d2: "errorMessage_of ?db = JStr ''internal failure''" by (simp add: errorMessage_of_def js_or_def)
  have e2: "js_prop ?db ''status_code'' \<noteq> JNum 401 \<and> js_prop ?db ''status_code'' \<noteq> JNum 403" by simp
  have a3: "addressed waiting_client ?dc" by (simp add: addressed_def)
  have b3: "js_prop ?dc ''status'' \<noteq> JStr ''WAIT''" by simp
  have c3: "js_prop ?dc ''status'' = JStr ''ERROR'' \<or> truthy (js_prop ?dc ''error'')" by simp
  have d3: "errorMessage_of ?dc = JStr ''Invalid Token''" by (simp add: errorMessage_of_def js_or_def)
  have e3: "js_prop ?dc ''status_code'' \<noteq> JNum 401 \<and> js_prop ?dc ''status_code'' \<noteq> JNum 403" by simp
  have a4: "addressed waiting_client ?dd" by (simp add: addressed_def)
  have b4: "js_prop ?dd ''status'' \<noteq> JStr ''WAIT''" by simp
  have c4: "js_prop ?dd ''status'' = JStr ''ERROR'' \<or> truthy (js_prop ?dd ''error'')" by simp
  have d4: "errorMessage_of ?dd = JStr ''internal failure''" by (simp add: errorMessage_of_def js_or_def)
  have e4: "js_prop ?dd ''status_code'' = JNum 403" by simp
  have a5: "addressed waiting_client ?de" by (simp add: addressed_def)
  have b5: "js_prop ?de ''status'' \<noteq> JStr ''WAIT''" by simp
  have c5: "js_prop ?de ''status'' = JStr ''ERROR'' \<or> truthy (js_prop ?de ''error'')" by simp
  have d5: "errorMessage_of ?de = JStr ''Access Denied''" by (simp add: errorMessage_of_def js_or_def)
  have e5: "js_prop ?de ''status_code'' \<noteq> JNum 401 \<and> js_prop ?de ''status_code'' \<noteq> JNum 403" by simp
  from hard_error_classification[OF a1 b1 c1 d1] e1 ct
  have r1: "handleMessage waiting_client (Json ?da) = ?auth"
    by simp
  from hard_error_classification[OF a2 b2 c2 d2] e2 ct kw(3)
  have r2: "handleMessage waiting_client (Json ?db) = (waiting_client\<lparr>connectionTimer := None\<rparr>,
      [ClearTimeout 0, CbOnError (ConnectionFailed (JStr ''internal failure'')),
       Emit (EvError (ConnectionFailed (JStr ''internal failure'')))])"
    by simp
  from hard_error_classification[OF a3 b3 c3 d3] ct kw(1)
  have r3: "handleMessage waiting_client (Json ?dc) = ?auth"
    by simp
  from hard_error_classification[OF a4 b4 c4 d4] e4 ct
  have r4: "handleMessage waiting_client (Json ?dd) = ?auth"
    by simp
  from hard_error_classification[OF a5 b5 c5 d5] ct kw(2)
  have r5: "handleMessage waiting_client (Json ?de) = ?auth"
    by simp
  from r1 r2 r3 r4 r5 show ?thesis by simp
qed

section \<open>The disconnect signal\<close>

text \<open>
  C2, as stated: a message addressed to this client whose \<open>message\<close> is DISCONNECT gives a
  disconnect event and closes the session whatever else it carries, also as the first
  message. It is false: as the first message it makes the server ready; with status WAIT or
  ERROR it is reported as an error; while the source language is \<^verbatim>\<open>null\<close>, with a language
  it is a language detection. None of the four emits \<^verbatim>\<open>disconnect\<close> or closes the socket.
\<close>

theorem disconnect_not_prior_counterexample:
  "handleMessage waiting_client (Json (JObj [(''message'', JStr ''DISCONNECT'')]))
     = (waiting_client\<lparr>isServerReady := True, connectionTimer := None\<rparr>,
        [ClearTimeout 0, CbOnReady, Emit EvReady])
   \<and> handleMessage ready_client
       (Json (JObj [(''message'', JStr ''DISCONNECT''), (''status'', JStr ''WAIT'')]))
     = (ready_client, [CbOnError (ServerMessage (JStr ''DISCONNECT'')),
                       Emit (EvError (ServerMessage (JStr ''DISCONNECT'')))])
   \<and> handleMessage ready_client
       (Json (JObj [(''message'', JStr ''DISCONNECT''), (''status'', JStr ''ERROR'')]))
     = (ready_client, [CbOnError (ConnectionFailed (JStr ''DISCONNECT'')),
                       Emit (EvError (ConnectionFailed (JStr ''DISCONNECT'')))])
   \<and> handleMessage ready_client
       (Json (JObj [(''message'', JStr ''DISCONNECT''), (''language'', JStr ''en'')]))
     = (ready_client\<lparr>sourceLanguage := JStr ''en''\<rparr>,
        [CbOnLanguageDetected (JStr ''en''), Emit (EvLanguageDetected (JStr ''en''))])"
  by code_simp

text \<open>
  C2, amended: a message addressed to this client whose \<open>message\<close> is DISCONNECT, which is
  neither a WAIT status nor a hard error, received when the server is ready and not taken
  as a language detection, gives the close callback and the disconnect event and then
  \<^verbatim>\<open>close()\<close>: the timer is cancelled, the socket is closed and the server is no longer
  ready. No other field of the message (segments, translations, audio) has an effect.
\<close>

theorem disconnect_after_ready:
  assumes "addressed c data"
    and "js_prop data ''message'' = JStr ''DISCONNECT''"
    and "js_prop data ''status'' \<noteq> JStr ''WAIT''"
    and "\<not> hard_error data"
    and "isServerReady c"
    and "\<not> language_detected c data"
  shows "handleMessage c (Json data) = (fst (close c), [CbOnClose, Emit EvDisconnect] @ snd (close c))
         \<and> \<not> isServerReady (fst (close c)) \<and> connectionTimer (fst (close c)) = None
         \<and> socket (fst (close c)) = map_option socket_close (socket c)
         \<and> (socket c \<noteq> None \<longrightarrow> SocketClose \<in> set (snd (close c)))"
proof -
  have "\<not> nullish data" using assms(2) js_prop_nullish[of data] by auto
  then have "handleMessage c (Json data) = (fst (close c), [CbOnClose, Emit EvDisconnect] @ snd (close c))"
    using assms by (simp add: handleMessage_Json handleJson_disconnect)
  moreover have "\<not> isServerReady (fst (close c)) \<and> connectionTimer (fst (close c)) = None
         \<and> socket (fst (close c)) = map_option socket_close (socket c)
         \<and> (socket c \<noteq> None \<longrightarrow> SocketClose \<in> set (snd (close c)))"
    by (auto simp: close_def clear_timer_def split: option.splits)
  ultimately show ?thesis by simp
qed

theorem disconnect_after_ready_witness:
  "addressed ready_client (JObj [(''message'', JStr ''DISCONNECT''), (''segments'', JArr [JObj [(''text'', JStr ''hi''), (''completed'', JBool False)]])])
   \<and> handleMessage ready_client (Json (JObj [(''message'', JStr ''DISCONNECT''), (''segments'', JArr [JObj [(''text'', JStr ''hi''), (''completed'', JBool False)]])]))
     = (ready_client\<lparr>socket := Some CLOSING, isServerReady := False\<rparr>, [CbOnClose, Emit EvDisconnect, SocketClose])"
proof -
  let ?d = "JObj [(''message'', JStr ''DISCONNECT''), (''segments'', JArr [JObj [(''text'', JStr ''hi''), (''completed'', JBool False)]])]"
  have a: "addressed ready_client ?d" by (simp add: addressed_def)
  have b: "js_prop ?d ''message'' = JStr ''DISCONNECT''" by simp
  have c: "js_prop ?d ''status'' \<noteq> JStr ''WAIT''" by simp
  have d: "\<not> hard_error ?d" by (simp add: hard_error_def)
  have e: "isServerReady ready_client" by (simp add: ready_client_def)
  have f: "\<not> language_detected ready_client ?d" by (simp add: language_detected_def)
  have g: "close ready_client = (ready_client\<lparr>socket := Some CLOSING, isServerReady := False\<rparr>, [SocketClose])"
    by (simp add: close_def clear_timer_def ready_client_def)
  from disconnect_after_ready[OF a b c d e f] a g show ?thesis by simp
qed

section \<open>Sending audio\<close>

lemma client_sink_state: "fst (client_sink w a) = w"
  by (cases "websocketClient (mclient w)") (auto simp: client_sink_def sendAudio_def)

text \<open>
  C10: \<^verbatim>\<open>sendAudio\<close> sends the block on the socket exactly when the socket exists, is OPEN and
  the server is ready; otherwise nothing is sent. In both cases the client is unchanged:
  nothing is kept for later. The model has no exception in it, as the method has no
  statement that throws and sends only on an open socket. The sink MaestraClient wires into
  a processor does the same through its socket client, and nothing without one.
\<close>

theorem sendAudio_transmits_iff_open_and_ready:
  "sendAudio c audioData =
     (c, if socket c = Some OPEN \<and> isServerReady c then [SocketSendAudio audioData] else [])
   \<and> client_sink w audioData =
     (w, case websocketClient (mclient w) of
           None \<Rightarrow> []
         | Some c' \<Rightarrow> if socket c' = Some OPEN \<and> isServerReady c'
                      then [Ws (SocketSendAudio audioData)] else [])"
proof -
  have 1: "sendAudio c audioData =
     (c, if socket c = Some OPEN \<and> isServerReady c then [SocketSendAudio audioData] else [])"
    by (simp add: sendAudio_def)
  have 2: "snd (client_sink w audioData) = (case websocketClient (mclient w) of
           None \<Rightarrow> []
         | Some c' \<Rightarrow> if socket c' = Some OPEN \<and> isServerReady c'
                      then [Ws (SocketSendAudio audioData)] else [])"
    by (cases "websocketClient (mclient w)") (auto simp: client_sink_def sendAudio_def forward_effects_def)
  from 1 2 client_sink_state[of w audioData] show ?thesis
    by (metis prod.collapse)
qed

theorem sendAudio_transmits_iff_open_and_ready_witness:
  "sendAudio ready_client [1, 0] = (ready_client, [SocketSendAudio [1, 0]])
   \<and> sendAudio waiting_client [1, 0] = (waiting_client, [])
   \<and> client_sink ready_sdk [1, 0] = (ready_sdk, [Ws (SocketSendAudio [1, 0])])"
proof -
  have a: "socket ready_client = Some OPEN \<and> isServerReady ready_client" by (simp add: ready_client_def)
  have b: "\<not> isServerReady waiting_client" by (simp add: waiting_client_def)
  have c: "websocketClient (mclient ready_sdk) = Some ready_client" by (simp add: ready_sdk_def)
  from sendAudio_transmits_iff_open_and_ready[of ready_client "[1, 0]" ready_sdk]
       sendAudio_transmits_iff_open_and_ready[of waiting_client "[1, 0]" ready_sdk] a b c
  show ?thesis by simp
qed

section \<open>Interim segments\<close>

lemma handleMessage_segments:
  assumes "Emit (EvSegments cur) \<in> set (snd (handleMessage c ev))"
  shows "\<exists>data xs. ev = Json data \<and> reaches_regular c data \<and> js_prop data ''segments'' = JArr xs
           \<and> \<not> list_ex nullish xs
           \<and> cur = filter (\<lambda>segment. js_prop segment ''completed'' = JBool False) xs \<and> cur \<noteq> []"
proof (cases ev)
  case (BinaryData b)
  with assms show ?thesis by (simp add: handleMessage_def)
next
  case BadJson
  with assms show ?thesis by (simp add: handleMessage_def error_effects_def)
next
  case (Json data)
  with assms have "Emit (EvSegments cur) \<in> set (snd (handleJson c data))"
    by (simp add: handleMessage_def)
  from handleJson_segments[OF this] Json show ?thesis by auto
qed

text \<open>
  C9: a \<^verbatim>\<open>segments\<close> event only carries segments whose \<open>completed\<close> is the boolean
  \<^verbatim>\<open>false\<close>, and is never empty; a message all of whose segments have \<open>completed\<close> absent or
  different from \<^verbatim>\<open>false\<close> gives no \<^verbatim>\<open>segments\<close> event at all.
\<close>

theorem only_false_completed_is_interim:
  "(\<forall>cur. Emit (EvSegments cur) \<in> set (snd (handleMessage c ev)) \<longrightarrow>
      cur \<noteq> [] \<and> (\<forall>segment \<in> set cur. js_prop segment ''completed'' = JBool False))
   \<and> (\<forall>data xs. ev = Json data \<longrightarrow> js_prop data ''segments'' = JArr xs \<longrightarrow>
        (\<forall>segment \<in> set xs. js_prop segment ''completed'' \<noteq> JBool False) \<longrightarrow>
        (\<forall>cur. Emit (EvSegments cur) \<notin> set (snd (handleMessage c ev))))"
proof -
  have 1: "cur \<noteq> [] \<and> (\<forall>segment \<in> set cur. js_prop segment ''completed'' = JBool False)"
    if "Emit (EvSegments cur) \<in> set (snd (handleMessage c ev))" for cur
    using handleMessage_segments[OF that] by auto
  have 2: "Emit (EvSegments cur) \<notin> set (snd (handleMessage c ev))"
    if ev: "ev = Json data" and xs: "js_prop data ''segments'' = JArr xs"
      and all: "\<forall>segment \<in> set xs. js_prop segment ''completed'' \<noteq> JBool False"
    for data xs cur
  proof
    assume "Emit (EvSegments cur) \<in> set (snd (handleMessage c ev))"
    from handleMessage_segments[OF this] ev xs obtain
      "cur = filter (\<lambda>segment. js_prop segment ''completed'' = JBool False) xs" "cur \<noteq> []" by auto
    with all show False by (auto simp: filter_empty_conv)
  qed
  from 1 2 show ?thesis by blast
qed

theorem only_false_completed_is_interim_witness:
  "js_prop (JObj [(''segments'', JArr [seg_done, seg_untagged])]) ''segments'' = JArr [seg_done, seg_untagged]
   \<and> js_prop seg_done ''completed'' \<noteq> JBool False
   \<and> js_prop seg_untagged ''completed'' \<noteq> JBool False
   \<and> Emit (EvSegments [seg_untagged]) \<notin> set (snd (handleMessage ready_client
         (Json (JObj [(''segments'', JArr [seg_done, seg_untagged])]))))
   \<and> Emit (EvSegments [seg_hi]) \<in> set (snd (handleMessage ready_client
         (Json (JObj [(''segments'', JArr [seg_hi, seg_done, seg_untagged])]))))
   \<and> js_prop seg_hi ''completed'' = JBool False"
proof -
  let ?d1 = "JObj [(''segments'', JArr [seg_done, seg_untagged])]"
  let ?d2 = "JObj [(''segments'', JArr [seg_hi, seg_done, seg_untagged])]"
  have a: "js_prop ?d1 ''segments'' = JArr [seg_done, seg_untagged]" by simp
  have b: "\<forall>segment \<in> set [seg_done, seg_untagged]. js_prop segment ''completed'' \<noteq> JBool False"
    by (simp add: seg_done_def seg_untagged_def)
  have e: "snd (handleMessage ready_client (Json ?d2)) =
             [Emit (EvSegments [seg_hi]), CbOnTranscription ?d2, Emit (EvTranscription ?d2)]"
    by code_simp
  have c: "Emit (EvSegments [seg_hi]) \<in> set (snd (handleMessage ready_client (Json ?d2)))"
    unfolding e by simp
  have 1: "Emit (EvSegments [seg_untagged]) \<notin> set (snd (handleMessage ready_client (Json ?d1)))"
    using only_false_completed_is_interim[of ready_client "Json ?d1", THEN conjunct2, rule_format, OF refl a b[rule_format]] .
  have 2: "js_prop seg_hi ''completed'' = JBool False"
    using only_false_completed_is_interim[of ready_client "Json ?d2", THEN conjunct1, THEN spec, THEN mp, OF c]
    by simp
  from a b c 1 2 show ?thesis by simp
qed

lemma forward_effects_Nil [simp]: "forward_effects m [] = []"
  by (simp add: forward_effects_def)

lemma forward_effects_Cons [simp]:
  "forward_effects m (e # es) = forward_effect m e @ forward_effects m es"
  by (simp add: forward_effects_def)

lemma forward_effects_append [simp]:
  "forward_effects m (es @ fs) = forward_effects m es @ forward_effects m fs"
  by (simp add: forward_effects_def)

lemma interim_events_append [simp]:
  "interim_events (es @ fs) = interim_events es @ interim_events fs"
  by (induction es rule: interim_events.induct) simp_all

lemma interim_forward_effect:
  "interim_events (forward_effect m e) = (case e of Emit (EvSegments cur) \<Rightarrow> [cur] | _ \<Rightarrow> [])"
proof (cases e)
  case (Emit ev)
  then show ?thesis by (cases ev) simp_all
qed simp_all

lemma interim_forward_in:
  "cur \<in> set (interim_events (forward_effects m es)) \<longleftrightarrow> Emit (EvSegments cur) \<in> set es"
proof (induction es)
  case Nil
  show ?case by simp
next
  case (Cons e es)
  show ?case
  proof (cases e)
    case (Emit ev)
    with Cons show ?thesis by (cases ev) (auto simp: interim_forward_effect)
  qed (use Cons in \<open>auto simp: interim_forward_effect\<close>)
qed

lemma interim_no_segments:
  "\<forall>cur. Emit (EvSegments cur) \<notin> set es \<Longrightarrow> interim_events (forward_effects m es) = []"
  using interim_forward_in[of _ m es] by (cases "interim_events (forward_effects m es)") auto


lemma run_nth:
  "run w evs = Some (w', tr) \<Longrightarrow> i < length evs \<Longrightarrow>
   \<exists>wi wj. step wi (evs ! i) = Some (wj, tr ! i)"
proof (induction evs arbitrary: w tr i)
  case Nil
  then show ?case by simp
next
  case (Cons e es)
  from Cons.prems(1) obtain w1 effs tr1 where
    s: "step w e = Some (w1, effs)" and r: "run w1 es = Some (w', tr1)" and tr: "tr = effs # tr1"
    by (auto split: option.splits prod.splits)
  show ?case
  proof (cases i)
    case 0
    with s tr show ?thesis by auto
  next
    case (Suc j)
    with Cons.prems(2) have "j < length es" by simp
    from Cons.IH[OF r this] Suc tr show ?thesis by auto
  qed
qed

lemma step_message_effects:
  "step wi (SocketMessage m) = Some (wj, effs) \<Longrightarrow> effs = snd (handleMessage (client wi) m)"
  by (auto simp: run_effects_def split: if_splits)

lemma regular_interim:
  assumes "reaches_regular c data" and "js_prop data ''segments'' = JArr xs"
    and "\<not> list_ex nullish xs"
    and "filter (\<lambda>segment. js_prop segment ''completed'' = JBool False) xs \<noteq> []"
  shows "interim_events (forward_effects m (snd (handleMessage c (Json data))))
          = [filter (\<lambda>segment. js_prop segment ''completed'' = JBool False) xs]"
proof -
  let ?cur = "filter (\<lambda>segment. js_prop segment ''completed'' = JBool False) xs"
  have ci: "currentInterim (JArr xs) = Inr ?cur" using assms(3) by (simp add: currentInterim_def)
  obtain rest where re: "regular_effects data = Inr (Emit (EvSegments ?cur) # rest)"
    and rest: "\<forall>cur. Emit (EvSegments cur) \<notin> set rest"
    using assms(2,4) ci by (auto simp: regular_effects_def)
  from re assms(1) have "snd (handleMessage c (Json data)) = Emit (EvSegments ?cur) # rest"
    by (simp add: handleMessage_Json handleJson_regular)
  with interim_no_segments[OF rest, of m] show ?thesis by simp
qed

lemma client_interim_in:
  "ClientEmit (InterimTranscription cur) \<in> set (forward_effects m es) \<longleftrightarrow> Emit (EvSegments cur) \<in> set es"
proof (induction es)
  case Nil
  show ?case by simp
next
  case (Cons e es)
  show ?case
  proof (cases e)
    case (Emit ev)
    with Cons show ?thesis by (cases ev) auto
  qed (use Cons in auto)
qed

text \<open>
  C3: whatever messages came before, the \<^verbatim>\<open>interim-transcription\<close> event of a message
  carries exactly the segments of that message whose \<open>completed\<close> is \<^verbatim>\<open>false\<close>, in their
  order: nothing of an earlier message. And a message that reaches the transcription part
  of the handler (the server is ready) with such segments gives exactly one such event.
\<close>

theorem interim_event_is_current_message:
  assumes "run w (map SocketMessage earlier) = Some (w1, tr1)"
    and "step w1 (SocketMessage msg) = Some (w2, effs)"
  shows "(\<forall>cur. ClientEmit (InterimTranscription cur) \<in> set (forward_effects m effs) \<longrightarrow>
            (\<exists>data xs. msg = Json data \<and> js_prop data ''segments'' = JArr xs
               \<and> cur = filter (\<lambda>segment. js_prop segment ''completed'' = JBool False) xs))
       \<and> (\<forall>data xs. msg = Json data \<longrightarrow> reaches_regular (client w1) data \<longrightarrow>
            js_prop data ''segments'' = JArr xs \<longrightarrow> \<not> list_ex nullish xs \<longrightarrow>
            filter (\<lambda>segment. js_prop segment ''completed'' = JBool False) xs \<noteq> [] \<longrightarrow>
            interim_events (forward_effects m effs)
              = [filter (\<lambda>segment. js_prop segment ''completed'' = JBool False) xs])"
proof -
  have effs: "effs = snd (handleMessage (client w1) msg)"
    using assms(2) by (rule step_message_effects)
  have 1: "\<exists>data xs. msg = Json data \<and> js_prop data ''segments'' = JArr xs
               \<and> cur = filter (\<lambda>segment. js_prop segment ''completed'' = JBool False) xs"
    if "ClientEmit (InterimTranscription cur) \<in> set (forward_effects m effs)" for cur
  proof -
    from that have "Emit (EvSegments cur) \<in> set (snd (handleMessage (client w1) msg))"
      by (simp add: client_interim_in effs)
    from handleMessage_segments[OF this] show ?thesis by blast
  qed
  have 2: "interim_events (forward_effects m effs)
              = [filter (\<lambda>segment. js_prop segment ''completed'' = JBool False) xs]"
    if "msg = Json data" "reaches_regular (client w1) data" "js_prop data ''segments'' = JArr xs"
       "\<not> list_ex nullish xs" "filter (\<lambda>segment. js_prop segment ''completed'' = JBool False) xs \<noteq> []"
    for data xs
    using regular_interim[OF that(2,3,4,5), of m] that(1) by (simp add: effs)
  from 1 2 show ?thesis by blast
qed

lemma ready_client_regular:
  "js_prop data ''uid'' = JUndefined \<Longrightarrow> js_prop data ''status'' = JUndefined \<Longrightarrow>
   js_prop data ''error'' = JUndefined \<Longrightarrow> js_prop data ''language'' = JUndefined \<Longrightarrow>
   js_prop data ''message'' = JUndefined \<Longrightarrow> \<not> nullish data \<Longrightarrow>
   reaches_regular ready_client data"
  by (simp add: reaches_regular_def addressed_def hard_error_def language_detected_def ready_client_def)

lemma ready_step_regular:
  assumes "reaches_regular ready_client data" and "regular_effects data = Inr es"
  shows "step ready_world (SocketMessage (Json data)) = Some (ready_world, es)"
proof -
  have "handleMessage ready_client (Json data) = (ready_client, es)"
    using assms by (simp add: handleMessage_Json handleJson_regular)
  moreover have "foldl timer_effect {} es = {}"
    if "\<And>e. e \<in> set es \<Longrightarrow> timer_effect {} e = {}"
    using that by (induction es) auto
  moreover have "e \<in> set es \<Longrightarrow> timer_effect {} e = {}" for e
    using assms(2)
    by (cases e) (auto simp: regular_effects_def split: if_splits sum.splits)
  ultimately show ?thesis
    by (simp add: ready_world_def ready_client_def run_effects_def)
qed

theorem interim_event_is_current_message_witness:
  "run ready_world (map SocketMessage [Json (JObj [(''segments'', JArr [seg_first])])])
     = Some (ready_world, [[Emit (EvSegments [seg_first]),
                            CbOnTranscription (JObj [(''segments'', JArr [seg_first])]),
                            Emit (EvTranscription (JObj [(''segments'', JArr [seg_first])]))]])
   \<and> step ready_world (SocketMessage (Json (JObj [(''segments'', JArr [seg_hi, seg_done])])))
     = Some (ready_world, [Emit (EvSegments [seg_hi]),
                           CbOnTranscription (JObj [(''segments'', JArr [seg_hi, seg_done])]),
                           Emit (EvTranscription (JObj [(''segments'', JArr [seg_hi, seg_done])]))])
   \<and> reaches_regular (client ready_world) (JObj [(''segments'', JArr [seg_hi, seg_done])])
   \<and> interim_events (forward_effects plain_maestra
        [Emit (EvSegments [seg_hi]),
         CbOnTranscription (JObj [(''segments'', JArr [seg_hi, seg_done])]),
         Emit (EvTranscription (JObj [(''segments'', JArr [seg_hi, seg_done])]))]) = [[seg_hi]]"
proof -
  let ?first = "JObj [(''segments'', JArr [seg_first])]"
  let ?d = "JObj [(''segments'', JArr [seg_hi, seg_done])]"
  let ?ef = "[Emit (EvSegments [seg_first]), CbOnTranscription ?first, Emit (EvTranscription ?first)]"
  let ?e = "[Emit (EvSegments [seg_hi]), CbOnTranscription ?d, Emit (EvTranscription ?d)]"
  have rega: "reaches_regular ready_client ?first" by (simp add: ready_client_regular)
  have reg: "reaches_regular ready_client ?d" by (simp add: ready_client_regular)
  have rea: "regular_effects ?first = Inr ?ef"
    by code_simp
  have re: "regular_effects ?d = Inr ?e"
    by code_simp
  have r: "run ready_world (map SocketMessage [Json ?first]) = Some (ready_world, [?ef])"
    using ready_step_regular[OF rega rea] by simp
  have s: "step ready_world (SocketMessage (Json ?d)) = Some (ready_world, ?e)"
    using ready_step_regular[OF reg re] .
  have reg': "reaches_regular (client ready_world) ?d" using reg by (simp add: ready_world_def)
  have xs: "js_prop ?d ''segments'' = JArr [seg_hi, seg_done]" by simp
  have nn: "\<not> list_ex nullish [seg_hi, seg_done]" by (simp add: seg_hi_def seg_done_def)
  have f: "filter (\<lambda>segment. js_prop segment ''completed'' = JBool False) [seg_hi, seg_done] = [seg_hi]"
    by (simp add: seg_hi_def seg_done_def)
  have ne: "filter (\<lambda>segment. js_prop segment ''completed'' = JBool False) [seg_hi, seg_done] \<noteq> []"
    unfolding f by simp
  have "interim_events (forward_effects plain_maestra ?e)
          = [filter (\<lambda>segment. js_prop segment ''completed'' = JBool False) [seg_hi, seg_done]]"
    using interim_event_is_current_message[OF r s, of plain_maestra, THEN conjunct2, rule_format,
            OF refl reg' xs nn ne] .
  then have i: "interim_events (forward_effects plain_maestra ?e) = [[seg_hi]]"
    unfolding f .
  show ?thesis
    apply (intro conjI)
    apply (fact r)
    apply (fact s)
    apply (fact reg')
    apply (fact i)
    done
qed

section \<open>The connection timer\<close>

lemma clear_timer_cancels: "cancels_timer c (clear_timer c)"
  by (auto simp: cancels_timer_def clear_timer_def split: option.splits)

lemma clear_timer_socket: "socket (fst (clear_timer c)) = socket c"
  by (auto simp: clear_timer_def split: option.splits)


lemma close_cancels: "cancels_timer c (close c)"
  by (auto simp: cancels_timer_def close_def clear_timer_def split: option.splits)

lemma close_socket: "socket (fst (close c)) = map_option socket_close (socket c)"
  by (auto simp: close_def clear_timer_def split: option.splits)

lemma cancels_append:
  "cancels_timer c (c', es) \<Longrightarrow> \<forall>P. foldl timer_effect P fs = P \<Longrightarrow> \<forall>P. foldl timer_effect P gs = P \<Longrightarrow>
   cancels_timer c (c', fs @ es @ gs)"
  by (simp add: cancels_timer_def)

lemma error_effects_timer: "foldl timer_effect P (error_effects e) = P"
  by (simp add: error_effects_def)

lemma regular_effects_timer:
  "regular_effects data = Inr es \<Longrightarrow> foldl timer_effect P es = P"
  by (auto simp: regular_effects_def split: if_splits sum.splits)

lemma handleJson_timer:
  "keeps_timer c (handleJson c data) \<or> cancels_timer c (handleJson c data)"
proof (cases rule: handleJson_cases[where data=data and c=c])
  case null
  then show ?thesis by (simp add: handleJson_null keeps_timer_def error_effects_timer)
next
  case other
  then show ?thesis by (simp add: handleJson_other keeps_timer_def)
next
  case wait
  then show ?thesis by (simp add: handleJson_wait keeps_timer_def error_effects_timer)
next
  case error
  have "cancels_timer c (fst (clear_timer c), [] @ snd (clear_timer c) @ error_effects e)" for e
    by (rule cancels_append) (simp_all add: clear_timer_cancels error_effects_timer)
  with error show ?thesis by (simp add: handleJson_error)
next
  case ready
  have "cancels_timer (c\<lparr>isServerReady := True\<rparr>)
          (fst (clear_timer (c\<lparr>isServerReady := True\<rparr>)),
           [] @ snd (clear_timer (c\<lparr>isServerReady := True\<rparr>)) @ [CbOnReady, Emit EvReady])"
    by (rule cancels_append) (simp_all add: clear_timer_cancels)
  then have "cancels_timer c
          (fst (clear_timer (c\<lparr>isServerReady := True\<rparr>)),
           snd (clear_timer (c\<lparr>isServerReady := True\<rparr>)) @ [CbOnReady, Emit EvReady])"
    by (simp add: cancels_timer_def)
  with ready show ?thesis by (simp add: handleJson_ready)
next
  case language
  then show ?thesis by (simp add: handleJson_language keeps_timer_def)
next
  case disconnect
  have "cancels_timer c (fst (close c), [CbOnClose, Emit EvDisconnect] @ snd (close c) @ [])"
    by (rule cancels_append) (simp_all add: close_cancels)
  with disconnect show ?thesis by (simp add: handleJson_disconnect)
next
  case regular
  then show ?thesis
    by (auto simp: handleJson_regular keeps_timer_def error_effects_timer regular_effects_timer
        split: sum.splits)
qed

lemma handleMessage_timer:
  "keeps_timer c (handleMessage c m) \<or> cancels_timer c (handleMessage c m)"
proof (cases m)
  case (Json data)
  with handleJson_timer[of c data] show ?thesis by (simp add: handleMessage_def)
qed (simp_all add: handleMessage_def keeps_timer_def error_effects_timer)

lemma handleJson_socket:
  "socket (fst (handleJson c data)) = socket c \<or> socket (fst (handleJson c data)) = map_option socket_close (socket c)"
  by (cases rule: handleJson_cases[where data=data and c=c])
     (auto simp: handleJson_null handleJson_other handleJson_wait handleJson_error handleJson_ready
        handleJson_language handleJson_disconnect handleJson_regular clear_timer_socket close_socket
        split: sum.splits)

lemma handleMessage_socket:
  "socket (fst (handleMessage c m)) = socket c \<or> socket (fst (handleMessage c m)) = map_option socket_close (socket c)"
  using handleJson_socket[of c] by (cases m) (auto simp: handleMessage_def)

lemma socket_close_not_connecting: "socket_close rs \<noteq> CONNECTING"
  by (cases rs) auto

lemma inv_after:
  assumes inv: "timer_inv w" and s: "socket (client w) \<noteq> Some CONNECTING"
    and r: "keeps_timer (client w) r \<or> cancels_timer (client w) r"
    and so: "socket (fst r) \<noteq> Some CONNECTING"
  shows "timer_inv (fst (run_effects w r))"
  using assms by (auto simp: timer_inv_def run_effects_def keeps_timer_def cancels_timer_def)

lemma cancels_pending:
  assumes "timer_inv w" and "cancels_timer (client w) r"
  shows "pending (fst (run_effects w r)) = {}"
  using assms by (auto simp: timer_inv_def run_effects_def cancels_timer_def)

lemma step_inv:
  assumes "timer_inv w" and "step w e = Some (w', effs)" and "e \<noteq> CallConnect"
  shows "timer_inv w'"
proof (cases e)
  case CallConnect
  with assms show ?thesis by simp
next
  case (SocketOpened t)
  with assms show ?thesis
    by (auto simp: timer_inv_def run_effects_def onopen_def split: if_splits)
next
  case (SocketMessage m)
  with assms(2) have en: "socket (client w) = Some OPEN \<or> socket (client w) = Some CLOSING"
    and w': "w' = fst (run_effects w (handleMessage (client w) m))"
    by (auto split: if_splits)
  from en handleMessage_socket[of "client w" m]
  have "socket (fst (handleMessage (client w) m)) \<noteq> Some CONNECTING" by auto
  with inv_after[OF assms(1) _ handleMessage_timer] en w' show ?thesis by auto
next
  case SocketFailed
  with assms show ?thesis
    by (auto simp: timer_inv_def run_effects_def onerror_def split: if_splits)
next
  case SocketClosed
  with assms show ?thesis
    by (auto simp: timer_inv_def run_effects_def onclose_def split: if_splits)
next
  case (TimerFired t)
  with assms(2) have t: "t \<in> pending w"
    and w': "w' = fst (run_effects (w\<lparr>pending := pending w - {t}\<rparr>) (onTimeout (client w)))"
    by (auto split: if_splits)
  from t assms(1) have ct: "connectionTimer (client w) = Some t" and nc: "socket (client w) \<noteq> Some CONNECTING"
    by (auto simp: timer_inv_def)
  show ?thesis
  proof (cases "isServerReady (client w)")
    case True
    with w' ct nc assms(1) show ?thesis
      by (auto simp: onTimeout_def run_effects_def timer_inv_def)
  next
    case False
    have "foldl timer_effect P (error_effects TimeoutWaiting @ snd (close (client w)) @ [Reject TimeoutWaiting])
            = P - set_option (connectionTimer (client w))" for P
      using close_cancels[of "client w"] by (simp add: cancels_timer_def error_effects_def)
    with False w' ct nc assms(1) close_cancels[of "client w"] close_socket[of "client w"] show ?thesis
      by (auto simp: onTimeout_def run_effects_def timer_inv_def cancels_timer_def case_prod_beta
               socket_close_not_connecting)
  qed
next
  case CallClose
  with assms(2) have w': "w' = fst (run_effects w (close (client w)))" by auto
  have "pending w' = {}" unfolding w' using cancels_pending[OF assms(1) close_cancels] .
  then show ?thesis by (simp add: timer_inv_def)
next
  case (CallSendAudio a)
  with assms show ?thesis
    by (auto simp: timer_inv_def run_effects_def sendAudio_def split: if_splits)
qed

lemma run_inv:
  "timer_inv w \<Longrightarrow> run w evs = Some (w', tr) \<Longrightarrow> CallConnect \<notin> set evs \<Longrightarrow> timer_inv w'"
proof (induction evs arbitrary: w tr)
  case Nil
  then show ?case by simp
next
  case (Cons e es)
  from Cons.prems(2) obtain w1 effs tr1 where
    s: "step w e = Some (w1, effs)" and r: "run w1 es = Some (w', tr1)"
    by (auto split: option.splits prod.splits)
  from Cons.prems(3) have ne: "e \<noteq> CallConnect" and nes: "CallConnect \<notin> set es" by auto
  from step_inv[OF Cons.prems(1) s ne] have "timer_inv w1" .
  from Cons.IH[OF this r nes] show ?case .
qed

lemma ends_attempt_pending:
  assumes inv: "timer_inv w" and st: "step w e = Some (w', effs)" and ends: "ends_attempt (client w) e"
  shows "pending w' = {}"
proof (cases e)
  case (SocketMessage m)
  with ends obtain data where m: "m = Json data" by (cases m) auto
  from st SocketMessage m have w': "w' = fst (run_effects w (handleJson (client w) data))"
    by (auto simp: handleMessage_def split: if_splits)
  from ends SocketMessage m have
    a: "\<not> nullish data" "addressed (client w) data" "js_prop data ''status'' \<noteq> JStr ''WAIT''"
    and b: "hard_error data \<or> \<not> isServerReady (client w)
           \<or> (\<not> language_detected (client w) data \<and> js_prop data ''message'' = JStr ''DISCONNECT'')"
    by auto
  have "cancels_timer (client w) (handleJson (client w) data)"
  proof (cases "hard_error data")
    case True
    have "cancels_timer (client w) (fst (clear_timer (client w)), [] @ snd (clear_timer (client w)) @ error_effects x)" for x
      by (rule cancels_append) (simp_all add: clear_timer_cancels error_effects_timer)
    with True a show ?thesis by (simp add: handleJson_error)
  next
    case False
    note nh = this
    show ?thesis
    proof (cases "isServerReady (client w)")
      case False
      from handleJson_timer[of "client w" data] a nh False show ?thesis
        by (auto simp: handleJson_ready keeps_timer_def cancels_timer_def clear_timer_def split: option.splits)
    next
      case True
      with b nh have d: "\<not> language_detected (client w) data" "js_prop data ''message'' = JStr ''DISCONNECT''"
        by auto
      have "cancels_timer (client w) (fst (close (client w)), [CbOnClose, Emit EvDisconnect] @ snd (close (client w)) @ [])"
        by (rule cancels_append) (simp_all add: close_cancels)
      with a nh True d show ?thesis by (simp add: handleJson_disconnect)
    qed
  qed
  from cancels_pending[OF inv this] w' show ?thesis by simp
next
  case (TimerFired t)
  with st have t: "t \<in> pending w"
    and w': "w' = fst (run_effects (w\<lparr>pending := pending w - {t}\<rparr>) (onTimeout (client w)))"
    by (auto split: if_splits)
  from t inv have ct: "connectionTimer (client w) = Some t"
    by (cases "connectionTimer (client w)") (auto simp: timer_inv_def)
  with t inv have p: "pending w = {t}" by (auto simp: timer_inv_def)
  have "foldl timer_effect {} (snd (onTimeout (client w))) = {}"
    using close_cancels[of "client w"]
    by (auto simp: onTimeout_def cancels_timer_def error_effects_def case_prod_beta)
  with w' p show ?thesis by (simp add: run_effects_def)
next
  case CallClose
  with st have w': "w' = fst (run_effects w (close (client w)))" by auto
  show ?thesis unfolding w' using cancels_pending[OF inv close_cancels] .
qed (use ends in auto)

lemma open_then_wait:
  "run connecting_world [SocketOpened 0, SocketMessage (Json wait_message)]
     = Some (waiting_world,
             [[SocketSendConfig, SetTimeout 0, Resolve],
              [CbOnError (ServerMessage (JStr ''Server is full'')),
               Emit (EvError (ServerMessage (JStr ''Server is full'')))]])"
  by (simp add: connecting_world_def connecting_client_def waiting_world_def waiting_client_def
      wait_message_def run_effects_def onopen_def handleMessage_def handleJson_def error_effects_def)

text \<open>
  C6, as stated: after the attempt ends by ready, by an error surfaced (a hard error, a WAIT
  status, a socket error) or by a manual close, no timer is pending. It is false for the
  WAIT status: the handler reports the error and returns with the timer armed, and the
  timer fires later and closes the connection.
\<close>

theorem timer_pending_after_wait_counterexample:
  "run connecting_world [SocketOpened 0, SocketMessage (Json wait_message)]
     = Some (waiting_world,
             [[SocketSendConfig, SetTimeout 0, Resolve],
              [CbOnError (ServerMessage (JStr ''Server is full'')),
               Emit (EvError (ServerMessage (JStr ''Server is full'')))]])
   \<and> pending waiting_world = {0}
   \<and> step waiting_world (TimerFired 0)
     = Some (\<lparr>client = waiting_client\<lparr>socket := Some CLOSING, connectionTimer := None\<rparr>, pending = {}\<rparr>,
             [CbOnError TimeoutWaiting, Emit (EvError TimeoutWaiting), ClearTimeout 0, SocketClose,
              Reject TimeoutWaiting])"
proof -
  have "step waiting_world (TimerFired 0)
     = Some (\<lparr>client = waiting_client\<lparr>socket := Some CLOSING, connectionTimer := None\<rparr>, pending = {}\<rparr>,
             [CbOnError TimeoutWaiting, Emit (EvError TimeoutWaiting), ClearTimeout 0, SocketClose,
              Reject TimeoutWaiting])"
    by (simp add: waiting_world_def waiting_client_def run_effects_def onTimeout_def close_def
        clear_timer_def error_effects_def)
  with open_then_wait show ?thesis by (simp add: waiting_world_def)
qed

text \<open>
  C6, amended: in a connection attempt (the socket is connecting, no timer is pending, and
  \<^verbatim>\<open>connect()\<close> is not called again), whatever events came before, no timer is pending
  after the attempt ends in one of these ways: a first valid message makes the server ready,
  a hard error message is handled, a DISCONNECT is handled, \<^verbatim>\<open>close()\<close> is called, or the
  timer itself fires; and no timer can fire afterwards. A WAIT status does not end the
  attempt: the timer stays armed.
\<close>

theorem timer_cancelled_when_attempt_ends:
  assumes "socket (client w0) = Some CONNECTING" and "pending w0 = {}"
    and "run w0 evs = Some (w, tr)" and "CallConnect \<notin> set evs"
    and "step w e = Some (w', effs)" and "ends_attempt (client w) e"
  shows "pending w' = {} \<and> (\<forall>t. step w' (TimerFired t) = None)"
proof -
  have "timer_inv w0" using assms(1,2) by (simp add: timer_inv_def)
  from run_inv[OF this assms(3,4)] have "timer_inv w" .
  from ends_attempt_pending[OF this assms(5,6)] show ?thesis by simp
qed

theorem timer_cancelled_when_attempt_ends_witness:
  "socket (client connecting_world) = Some CONNECTING \<and> pending connecting_world = {}
   \<and> run connecting_world [SocketOpened 0, SocketMessage (Json wait_message)]
       = Some (waiting_world,
             [[SocketSendConfig, SetTimeout 0, Resolve],
              [CbOnError (ServerMessage (JStr ''Server is full'')),
               Emit (EvError (ServerMessage (JStr ''Server is full'')))]])
   \<and> step waiting_world (SocketMessage (Json (JObj [(''status'', JStr ''ERROR''), (''message'', JStr ''invalid token'')])))
       = Some (\<lparr>client = waiting_client\<lparr>connectionTimer := None\<rparr>, pending = {}\<rparr>,
               [ClearTimeout 0, CbOnError AuthenticationError, Emit (EvError AuthenticationError)])
   \<and> ends_attempt (client waiting_world) (SocketMessage (Json (JObj [(''status'', JStr ''ERROR''), (''message'', JStr ''invalid token'')])))
   \<and> pending \<lparr>client = waiting_client\<lparr>connectionTimer := None\<rparr>, pending = {}\<rparr> = {}
   \<and> step \<lparr>client = waiting_client\<lparr>connectionTimer := None\<rparr>, pending = {}\<rparr> (TimerFired 0) = None"
proof -
  let ?m = "JObj [(''status'', JStr ''ERROR''), (''message'', JStr ''invalid token'')]"
  let ?w = "\<lparr>client = waiting_client\<lparr>connectionTimer := None\<rparr>, pending = {}\<rparr>"
  let ?effs = "[ClearTimeout 0, CbOnError AuthenticationError, Emit (EvError AuthenticationError)]"
  have a: "socket (client connecting_world) = Some CONNECTING"
    by (simp add: connecting_world_def connecting_client_def)
  have b: "pending connecting_world = {}" by (simp add: connecting_world_def)
  have nc: "CallConnect \<notin> set [SocketOpened 0, SocketMessage (Json wait_message)]" by simp
  have h: "handleMessage waiting_client (Json ?m) = (waiting_client\<lparr>connectionTimer := None\<rparr>, ?effs)"
    by code_simp
  have s: "step waiting_world (SocketMessage (Json ?m)) = Some (?w, ?effs)"
    by (simp add: waiting_world_def run_effects_def h) (simp add: waiting_client_def)
  have e: "ends_attempt (client waiting_world) (SocketMessage (Json ?m))"
    by (simp add: waiting_world_def addressed_def hard_error_def)
  from timer_cancelled_when_attempt_ends[OF a b open_then_wait nc s e]
  have "pending ?w = {} \<and> step ?w (TimerFired 0) = None" by blast
  with a b open_then_wait s e show ?thesis by blast
qed

section \<open>The ready event\<close>



lemma close_no_ready: "Emit EvReady \<notin> set (snd (close c))"
  using close_effects[of c] by auto

lemma addressed_uuid: "uuid c' = uuid c \<Longrightarrow> addressed c' data = addressed c data"
  by (simp add: addressed_def)




lemma close_uuid: "uuid (fst (close c)) = uuid c"
  by (auto simp: close_def clear_timer_def split: option.splits)

lemma close_ready: "\<not> isServerReady (fst (close c))"
  by (auto simp: close_def clear_timer_def split: option.splits)














section \<open>Stopping\<close>

text \<open>
  What holds of \<^verbatim>\<open>stop()\<close> whatever the state of the client and whichever processor is
  attached. \<^verbatim>\<open>stop\<close> of each of the three processor classes is idempotent. A second
  \<^verbatim>\<open>stop()\<close> of the client right after the first changes nothing and only emits
  \<^verbatim>\<open>transcription-stopped\<close> again: it calls no method of a processor or socket, so nothing
  in it can throw. After a \<^verbatim>\<open>stop()\<close>, whatever is called and whatever the processors
  deliver, nothing is passed to the socket, because \<^verbatim>\<open>stop()\<close> has set \<open>websocketClient\<close> to
  \<^verbatim>\<open>null\<close> and nothing here sets it again. A stopped StreamInputProcessor calls no callback
  when \<^verbatim>\<open>pushAudio\<close> is called.
\<close>

lemma processor_stop_twice:
  "processor_stop (fst (processor_stop p)) = (fst (processor_stop p), [])"
  by (cases p) (simp_all add: case_prod_beta)

lemma stop_mclient:
  "websocketClient (mclient (fst (stop w))) = None
   \<and> streamProcessor (mclient (fst (stop w))) = None
   \<and> \<not> isTranscribing (mclient (fst (stop w)))"
  by (simp add: stop_def case_prod_beta split: option.splits)

lemma stop_stopped:
  assumes "websocketClient (mclient w) = None" and "streamProcessor (mclient w) = None"
    and "\<not> isTranscribing (mclient w)"
  shows "stop w = (w, [ClientEmit TranscriptionStopped])"
proof -
  have "(mclient w)\<lparr>isTranscribing := False\<rparr> = mclient w" using assms(3) by simp
  then have "w\<lparr>mclient := (mclient w)\<lparr>isTranscribing := False\<rparr>\<rparr> = w" by simp
  with assms(1,2) show ?thesis by (simp add: stop_def)
qed

lemma stop_twice: "stop (fst (stop w)) = (fst (stop w), [ClientEmit TranscriptionStopped])"
  using stop_mclient[of w] by (intro stop_stopped) simp_all

lemma stop_no_client_effects:
  assumes "websocketClient (mclient w) = None"
  shows "websocketClient (mclient (fst (stop w))) = None \<and> (\<forall>e. Ws e \<notin> set (snd (stop w)))"
proof (cases "streamProcessor (mclient w)")
  case None
  with assms show ?thesis by (simp add: stop_def)
next
  case (Some r)
  have "Ws e \<notin> set (snd (processor_stop p))" for e p
    by (cases p) (auto simp: case_prod_beta)
  with Some assms show ?thesis by (simp add: stop_def case_prod_beta)
qed

lemma client_sink_none:
  "websocketClient (mclient w) = None \<Longrightarrow> client_sink w a = (w, [])"
  by (simp add: client_sink_def)

lemma onAudioCallback_none:
  assumes "websocketClient (mclient w) = None"
  shows "onAudioCallback w cb a = (w, [CallOnAudio cb a])"
  using assms by (cases cb) (simp_all add: onAudioCallback_def client_sink_none)

lemma transcribe_none:
  assumes "websocketClient (mclient w) = None"
  shows "fst (transcribe w r) = w \<and> (\<forall>e. Ws e \<notin> set (snd (transcribe w r)))"
  using assms by (simp add: transcribe_def)

lemma deliver_none:
  assumes "websocketClient (mclient w) = None"
  shows "websocketClient (mclient (fst (deliver w ev))) = None \<and> (\<forall>e. Ws e \<notin> set (snd (deliver w ev)))"
proof (cases ev)
  case (CallTranscribe r)
  with assms transcribe_none[OF assms] show ?thesis by simp
next
  case (StartResumed r)
  with assms show ?thesis by simp
next
  case (PushAudio r a)
  with assms onAudioCallback_none[OF assms] show ?thesis
    by (cases "processors w r") auto
next
  case (PipeData r a)
  with assms onAudioCallback_none[OF assms] show ?thesis
    by (cases "processors w r") auto
next
  case CallStop
  with stop_no_client_effects[OF assms] show ?thesis by simp
qed

lemma deliver_all_none:
  assumes "websocketClient (mclient w) = None"
  shows "\<forall>e. Ws e \<notin> set (snd (deliver_all w evs))"
  using assms
proof (induction evs arbitrary: w)
  case Nil
  show ?case by simp
next
  case (Cons ev evs)
  from deliver_none[OF Cons.prems] have
    a: "websocketClient (mclient (fst (deliver w ev))) = None" and b: "\<forall>e. Ws e \<notin> set (snd (deliver w ev))"
    by auto
  from Cons.IH[OF a] b show ?case by (simp add: case_prod_beta)
qed

lemma nothing_sent_after_stop: "Ws e \<notin> set (snd (deliver_all (fst (stop w)) evs))"
  using deliver_all_none[of "fst (stop w)"] stop_mclient[of w] by blast

lemma stop_processor:
  assumes "streamProcessor (mclient w) = Some r"
  shows "processors (fst (stop w)) r = fst (processor_stop (processors w r))"
  using assms by (simp add: stop_def case_prod_beta split: option.splits)

lemma push_after_stop:
  assumes "streamProcessor (mclient w) = Some r"
  shows "deliver (fst (stop w)) (PushAudio r a) = (fst (stop w), [])"
proof (cases "processors w r")
  case (StreamInput p)
  with stop_processor[OF assms] show ?thesis by (simp add: case_prod_beta)
next
  case (Ffmpeg p)
  with stop_processor[OF assms] show ?thesis by (simp add: case_prod_beta)
next
  case (Microphone p)
  with stop_processor[OF assms] show ?thesis by (simp add: case_prod_beta)
qed

text \<open>
  C8: for every kind of processor, two calls of \<^verbatim>\<open>stop()\<close> in a row do not throw, the second
  changes nothing, and no block is handed to \<^verbatim>\<open>onAudioCallback\<close> or \<^verbatim>\<open>sendAudio\<close> after the
  first has returned. The code keeps the first two parts and, of the third, only that
  nothing reaches \<^verbatim>\<open>sendAudio\<close> (the lemmas above). It breaks the rest for two of the three
  kinds, in each run below from a ready client that is not transcribing.

  Microphone: \<^verbatim>\<open>transcribe\<close> calls \<^verbatim>\<open>start()\<close>, which is suspended at its \<^verbatim>\<open>await\<close>;
  \<^verbatim>\<open>stop()\<close> is called and finds no microphone and no resampler to release; \<^verbatim>\<open>start()\<close>
  goes on without looking at what happened, sets \<open>isProcessing\<close> and starts recording; every
  chunk is then resampled and handed to \<^verbatim>\<open>onAudioCallback\<close>. A further \<^verbatim>\<open>stop()\<close> of the
  client does not reach the processor, since \<open>streamProcessor\<close> is \<^verbatim>\<open>null\<close>: the microphone
  stays open (second conjunct) and the chunks keep coming.

  FFmpeg: the data listener calls \<^verbatim>\<open>onAudioCallback\<close> without testing \<open>isProcessing\<close>, which
  \<^verbatim>\<open>stop()\<close> has cleared, so a chunk that the pipe of the killed process still delivers is
  handed on.

  StreamInputProcessor does what the two miss: \<^verbatim>\<open>pushAudio\<close> tests \<open>isProcessing\<close>, and
  after \<^verbatim>\<open>stop()\<close> no callback is called.
\<close>

theorem audio_callback_called_after_stop:
  "snd (deliver_all (idle_sdk new_microphone)
          [CallTranscribe 0, CallStop, StartResumed 0, PipeData 0 [1, 0], CallStop, PipeData 0 [0, 1]])
   = [ClientEmit TranscriptionStarted,
      Ws SocketClose, ClientEmit TranscriptionStopped,
      CallOnAudio ToClient [1, 0],
      ClientEmit TranscriptionStopped,
      CallOnAudio ToClient [0, 1]]
   \<and> processors (fst (deliver_all (idle_sdk new_microphone)
          [CallTranscribe 0, CallStop, StartResumed 0, PipeData 0 [1, 0], CallStop])) 0
   = Microphone \<lparr>mp_microphone = True, mp_micStream = True, mp_resampler = True,
                  mp_isProcessing = True, mp_onAudioCallback = ToClient\<rparr>
   \<and> snd (deliver_all (idle_sdk new_ffmpeg)
          [CallTranscribe 0, PipeData 0 [1, 0], CallStop, PipeData 0 [0, 1]])
   = [ClientEmit TranscriptionStarted,
      CallOnAudio ToClient [1, 0], Ws (SocketSendAudio [1, 0]),
      FfmpegKill, Ws SocketClose, ClientEmit TranscriptionStopped,
      CallOnAudio ToClient [0, 1]]
   \<and> snd (deliver_all (idle_sdk new_stream_input)
          [CallTranscribe 0, PushAudio 0 [1, 0], CallStop, PushAudio 0 [0, 1]])
   = [ClientEmit TranscriptionStarted,
      CallOnAudio ToClient [1, 0], Ws (SocketSendAudio [1, 0]),
      StreamEnd, Ws SocketClose, ClientEmit TranscriptionStopped]"
  by code_simp

section \<open>Continuity of the resamplers\<close>

lemma process_ticks_vals:
  assumes "0 < f" and "0 < t"
  shows "process_ticks f t hi nhi ls ns w cwi result
           = Some (fst (ticks_vals f t hi nhi ls ns w),
                   cwi + length (snd (ticks_vals f t hi nhi ls ns w)),
                   write_all result cwi (snd (ticks_vals f t hi nhi ls ns w)))"
  using assms
proof (induction f t hi nhi ls ns w arbitrary: cwi result rule: ticks_vals.induct)
  case (1 f t hi nhi ls ns w)
  have nz: "1 / f \<noteq> 0" using 1(3) by simp
  show ?case
  proof (cases "of_nat w / t < nhi")
    case False
    then show ?thesis
      by (subst process_ticks.simps, subst ticks_vals.simps, subst ticks_vals.simps, subst ticks_vals.simps) simp
  next
    case True
    note lt = this
    show ?thesis
    proof (cases "of_nat w / t < hi")
      case True
      with lt 1(4) have c: "0 < t \<and> of_nat w / t < nhi" by simp
      from 1(1)[OF c True 1(3,4)] lt True 1(4) show ?thesis
        by (subst process_ticks.simps, subst (1 2 3) ticks_vals.simps) (simp add: Let_def)
    next
      case False
      with lt 1(4) have c: "0 < t \<and> of_nat w / t < nhi" by simp
      from 1(2)[OF c False 1(3,4)] lt False 1(4) nz show ?thesis
        by (subst process_ticks.simps, subst (1 2 3) ticks_vals.simps)
           (simp add: Let_def case_prod_beta)
    qed
  qed
qed

lemma write_all_append:
  "write_all result k (vs @ ws) = write_all (write_all result k vs) (k + length vs) ws"
  by (induction vs arbitrary: result k) simp_all

lemma length_write_all [simp]: "length (write_all result k vs) = length result"
  by (induction vs arbitrary: result k) simp_all

lemma process_loop_vals:
  assumes "0 < f" and "0 < t"
  shows "process_loop f t cf i xs r cwi result
           = Some (fst (loop_vals f t (cf + i) xs r),
                   cwi + length (snd (loop_vals f t (cf + i) xs r)),
                   write_all result cwi (snd (loop_vals f t (cf + i) xs r)))"
proof (induction xs arbitrary: i r cwi result)
  case Nil
  show ?case by simp
next
  case (Cons x xs)
  have e: "cf + (i + 1) = cf + i + 1" by simp
  show ?case
    by (simp add: process_ticks_vals[OF assms] Cons.IH Let_def case_prod_beta write_all_append e
             add.assoc)
qed

lemma loop_vals_append:
  "loop_vals f t g (xs @ ys) r =
     (case loop_vals f t g xs r of
        (r1, v1) \<Rightarrow> (case loop_vals f t (g + length xs) ys r1 of (r2, v2) \<Rightarrow> (r2, v1 @ v2)))"
  by (induction xs arbitrary: g r) (simp_all add: case_prod_beta)

lemma less_tick_no: "0 < t \<Longrightarrow> (of_nat w / t < x) = (w < tick_no (x * t))"
proof -
  assume t: "0 < t"
  have "(of_nat w / t < x) = (of_nat w < x * t)" using t by (auto simp: field_simps)
  also have "\<dots> = (int w < \<lceil>x * t\<rceil>)" by (simp add: less_ceiling_iff)
  also have "\<dots> = (w < tick_no (x * t))" by (auto simp: tick_no_def)
  finally show ?thesis .
qed

lemma ticks_vals_count:
  assumes "0 < t" and "tick_no (hi * t) \<le> tick_no (nhi * t)"
  shows "fst (ticks_vals f t hi nhi ls ns w) = max w (tick_no (nhi * t))
       \<and> length (snd (ticks_vals f t hi nhi ls ns w))
           = max w (tick_no (nhi * t)) - max w (tick_no (hi * t))"
  using assms
proof (induction f t hi nhi ls ns w rule: ticks_vals.induct)
  case (1 f t hi nhi ls ns w)
  show ?case
  proof (cases "of_nat w / t < nhi")
    case False
    with 1(3) have "\<not> w < tick_no (nhi * t)" by (simp add: less_tick_no)
    with False 1(4) show ?thesis by (subst (1 2) ticks_vals.simps) simp
  next
    case True
    note lt = this
    with 1(3) have w: "w < tick_no (nhi * t)" by (simp add: less_tick_no)
    from lt 1(3) have c: "0 < t \<and> of_nat w / t < nhi" by simp
    show ?thesis
    proof (cases "of_nat w / t < hi")
      case True
      with 1(3) have "w < tick_no (hi * t)" by (simp add: less_tick_no)
      with 1(1)[OF c True 1(3,4)] True lt 1(3) w 1(4) show ?thesis
        by (subst (1 2) ticks_vals.simps) (simp add: max_def)
    next
      case False
      with 1(3) have "\<not> w < tick_no (hi * t)" by (simp add: less_tick_no)
      with 1(2)[OF c False 1(3,4)] False lt 1(3) w 1(4) show ?thesis
        by (subst (1 2) ticks_vals.simps) (auto simp: max_def case_prod_beta)
    qed
  qed
qed

lemma tick_of_mono: "0 < f \<Longrightarrow> 0 < t \<Longrightarrow> k \<le> k' \<Longrightarrow> tick_of f t k \<le> tick_of f t k'"
  unfolding tick_of_def tick_no_def
  by (intro nat_mono ceiling_mono mult_right_mono divide_right_mono) simp_all

lemma tick_of_add: 
  assumes "0 < f" and "0 < t"
  shows "tick_of f t (g + n) \<le> tick_of f t g + nat \<lceil>of_nat n * (t / f)\<rceil>"
proof -
  have "of_nat (g + n) / f * t = of_nat g / f * t + of_nat n * (t / f)"
    by (simp add: add_divide_distrib distrib_right)
  then have "\<lceil>of_nat (g + n) / f * t\<rceil> \<le> \<lceil>of_nat g / f * t\<rceil> + \<lceil>of_nat n * (t / f)\<rceil>"
    by (simp add: ceiling_add_le)
  moreover have "0 \<le> of_nat g / f * t" using assms by simp
  moreover have "0 \<le> of_nat n * (t / f)" using assms by simp
  ultimately have "\<lceil>of_nat (g + n) / f * t\<rceil> \<le> \<lceil>of_nat g / f * t\<rceil> + \<lceil>of_nat n * (t / f)\<rceil>"
    and "0 \<le> \<lceil>of_nat g / f * t\<rceil>" and "0 \<le> \<lceil>of_nat n * (t / f)\<rceil>"
    by (simp_all add: ceiling_mono)
  then show ?thesis unfolding tick_of_def tick_no_def by arith
qed

lemma loop_vals_count:
  assumes "0 < f" and "0 < t"
  shows "max (writeIndex (fst (loop_vals f t g xs r))) (tick_of f t (g + length xs))
           = max (writeIndex r) (tick_of f t (g + length xs))
       \<and> (xs \<noteq> [] \<longrightarrow> writeIndex (fst (loop_vals f t g xs r)) = max (writeIndex r) (tick_of f t (g + length xs)))
       \<and> length (snd (loop_vals f t g xs r))
           = max (writeIndex r) (tick_of f t (g + length xs)) - max (writeIndex r) (tick_of f t g)"
proof (induction xs arbitrary: g r)
  case Nil
  show ?case by simp
next
  case (Cons x xs)
  let ?w = "writeIndex r"
  let ?tv = "ticks_vals f t (of_nat g / f) ((of_nat g + 1) / f) (nextSample r) x ?w"
  let ?r1 = "\<lparr>lastSample = nextSample r, nextSample = x, writeIndex = fst ?tv\<rparr>"
  have hi: "tick_no (of_nat g / f * t) = tick_of f t g" by (simp add: tick_of_def)
  have nhi: "tick_no ((of_nat g + 1) / f * t) = tick_of f t (g + 1)" by (simp add: tick_of_def add.commute)
  have m1: "tick_of f t g \<le> tick_of f t (g + 1)" using tick_of_mono[OF assms] by simp
  have m2: "tick_of f t (g + 1) \<le> tick_of f t (g + 1 + length xs)" using tick_of_mono[OF assms] by simp
  have le: "tick_no (of_nat g / f * t) \<le> tick_no ((of_nat g + 1) / f * t)"
    using m1 unfolding hi nhi .
  note tvc = ticks_vals_count[OF assms(2) le, of f "nextSample r" x ?w, unfolded hi nhi]
  have tv: "fst ?tv = max ?w (tick_of f t (g + 1))"
    "length (snd ?tv) = max ?w (tick_of f t (g + 1)) - max ?w (tick_of f t g)"
    using tvc by blast+
  note ih = Cons.IH[of "g + 1" ?r1]
  have w1: "writeIndex ?r1 = max ?w (tick_of f t (g + 1))" using tv(1) by simp
  have e: "g + length (x # xs) = g + 1 + length xs" by simp
  have l: "loop_vals f t g (x # xs) r = (fst (loop_vals f t (g + 1) xs ?r1), snd ?tv @ snd (loop_vals f t (g + 1) xs ?r1))"
    by (simp add: case_prod_beta)
  have a: "max (writeIndex (fst (loop_vals f t (g + 1) xs ?r1))) (tick_of f t (g + 1 + length xs))
             = max ?w (tick_of f t (g + 1 + length xs))"
    using ih w1 m2 by (simp add: max_def split: if_splits)
  have b: "writeIndex (fst (loop_vals f t (g + 1) xs ?r1)) = max ?w (tick_of f t (g + 1 + length xs))"
  proof (cases xs)
    case Nil
    then show ?thesis using w1 by simp
  next
    case (Cons y ys)
    with ih w1 m2 show ?thesis by (simp add: max_def split: if_splits)
  qed
  have c: "length (snd (loop_vals f t (g + 1) xs ?r1))
             = max ?w (tick_of f t (g + 1 + length xs)) - max ?w (tick_of f t (g + 1))"
    using ih w1 m2 by (simp add: max_def split: if_splits)
  from a b c tv m1 m2 show ?case
    unfolding l e by (auto simp: max_def split: if_splits)
qed

lemma loop_vals_bound:
  assumes "0 < f" and "0 < t"
  shows "length (snd (loop_vals f t g xs r)) \<le> nat \<lceil>of_nat (length xs) * (t / f)\<rceil>"
proof -
  have m: "tick_of f t g \<le> tick_of f t (g + length xs)" using tick_of_mono[OF assms] by simp
  from loop_vals_count[OF assms, of g xs r]
  have "length (snd (loop_vals f t g xs r)) \<le> tick_of f t (g + length xs) - tick_of f t g"
    using m by (simp add: max_def split: if_splits)
  with tick_of_add[OF assms, of g "length xs"] show ?thesis by simp
qed

lemma write_all_fits:
  "k + length vs \<le> length result \<Longrightarrow>
   write_all result k vs = take k result @ vs @ drop (k + length vs) result"
proof (induction vs arbitrary: result k)
  case Nil
  show ?case by simp
next
  case (Cons v vs)
  from Cons.prems have k: "k < length result" by simp
  from Cons.prems have "k + 1 + length vs \<le> length (result[k := v])" by simp
  from Cons.IH[OF this] k show ?case
    by (simp add: take_Suc_conv_app_nth)
qed

lemma process_vals:
  assumes "0 < f" and "0 < t"
  shows "process f t cf (Some xs) r
           = Some (fst (loop_vals f t cf xs r),
                   if snd (loop_vals f t cf xs r) = [] then None
                   else Some (snd (loop_vals f t cf xs r)))"
proof -
  let ?vs = "snd (loop_vals f t cf xs r)"
  let ?n = "nat (\<lceil>of_nat (length xs) * (t / f)\<rceil> + 1)"
  have "0 \<le> of_nat (length xs) * (t / f)" using assms by simp
  then have "0 \<le> \<lceil>of_nat (length xs) * (t / f)\<rceil>" by (simp add: ceiling_mono)
  with loop_vals_bound[OF assms, of cf xs r] have fit: "0 + length ?vs \<le> length (replicate ?n (0::rat))"
    by simp
  have "take (length ?vs) (write_all (replicate ?n 0) 0 ?vs) = ?vs"
    unfolding write_all_fits[OF fit] by simp
  then show ?thesis
    by (simp add: process_def process_loop_vals[OF assms] Let_def)
qed

lemma process_blocks_vals:
  assumes "0 < f" and "0 < t"
  shows "process_blocks f t cf bs r = Some (loop_vals f t cf (concat bs) r)"
proof (induction bs arbitrary: cf r)
  case Nil
  show ?case by simp
next
  case (Cons b bs)
  show ?case
    by (simp add: process_vals[OF assms] Cons.IH loop_vals_append case_prod_beta)
qed

text \<open>
  The AudioWorklet processor is continuous across blocks: for positive rates, any starting
  state and frame counter, and any partition of a signal into blocks, the calls on the
  blocks return, end in the state of the one call on the whole signal, and post the same
  samples in the same order.
\<close>

lemma process_blocks_invariant:
  assumes "0 < fromSampleRate" and "0 < toSampleRate"
  shows "\<exists>r' out. process_blocks fromSampleRate toSampleRate currentFrame blocks r = Some (r', out)
           \<and> process fromSampleRate toSampleRate currentFrame (Some (concat blocks)) r
               = Some (r', if out = [] then None else Some out)"
proof -
  obtain r' out where
    l: "loop_vals fromSampleRate toSampleRate currentFrame (concat blocks) r = (r', out)"
    by (cases "loop_vals fromSampleRate toSampleRate currentFrame (concat blocks) r") auto
  then show ?thesis
    by (simp add: process_blocks_vals[OF assms] process_vals[OF assms])
qed

text \<open>
  C1: resampling a signal block by block gives the stream that resampling it as one block
  gives. The AudioWorklet processor does so (\<open>process_blocks_invariant\<close> above, for every
  signal, partition, starting state and frame counter). The fallback \<^verbatim>\<open>resample\<close> does not:
  every call starts again at time 0 with \<open>lastSample = 0\<close>, so each block begins with the
  sample 0 and its ticks are counted from its own start. Blocks of three samples at 44100 Hz
  give four output samples where the whole signal gives three; blocks of two samples at
  32000 Hz give the same number of samples with another value.
\<close>

theorem resample_restarts_every_block:
  "resample [1, 1, 1, 1, 1, 1] 44100 targetSampleRate = Some [0, 1, 1]
   \<and> resample_blocks [[1, 1, 1], [1, 1, 1]] 44100 targetSampleRate = Some [0, 1, 0, 1]
   \<and> resample [1, 1, 1, 1] 32000 targetSampleRate = Some [0, 1]
   \<and> resample_blocks [[1, 1], [1, 1]] 32000 targetSampleRate = Some [0, 0]
   \<and> map_option snd (process_blocks 44100 targetSampleRate 0 [[1, 1, 1], [1, 1, 1]] new_resampler)
       = Some [0, 1, 1]
   \<and> map_option snd (process_blocks 32000 targetSampleRate 0 [[1, 1], [1, 1]] new_resampler)
       = Some [0, 1]"
  by code_simp

end
